theory Spec2Isabelle
  imports Main
begin

section \<open>Values exchanged with the outside world\<close>

text \<open>
  The program (\<^verbatim>\<open>Backend/ratemyprofessor.py\<close>) is a sequential script that talks to three
  external services: a Selenium browser session, plain HTTP (\<^verbatim>\<open>requests\<close>) and a Supabase
  table. The services are not part of the repository. Their answers are inputs of the
  model (the record \<open>env\<close> below); what the script does with the answers is translated
  from the source line by line.
\<close>

text \<open>
  What \<^verbatim>\<open>json.loads\<close> returns. A Python \<^verbatim>\<open>dict\<close> is kept as the list of its items in
  iteration order; \<^verbatim>\<open>d.get(k)\<close> is \<open>map_of d k\<close>. A float is kept as its \<^verbatim>\<open>repr\<close>: the
  script never inspects one.
\<close>

datatype json =
    JNull
  | JBool bool
  | JInt int
  | JFloat string
  | JStr string
  | JList "json list"
  | JDict "(string \<times> json) list"

text \<open>Exceptions: the class decides which \<^verbatim>\<open>except\<close> clause catches, \<^verbatim>\<open>str(e)\<close> is the message.\<close>

datatype exn_class =
    NoSuchElementException
  | ElementClickInterceptedException
  | WebDriverException
  | RequestException
  | AttributeError
  | JSONDecodeError
  | APIError

datatype exn = Exn (exn_class: exn_class) (str: string)

text \<open>A professor card anchor of the results page, as BeautifulSoup hands it to the loop of
  lines 74-82: the stripped text of its name \<^verbatim>\<open>div\<close> (\<open>None\<close> when the \<^verbatim>\<open>div\<close> is missing)
  and \<^verbatim>\<open>link.get("href")\<close> (\<open>None\<close> when the attribute is missing).\<close>

record card =
  card_name :: "string option"
  href :: "string option"

text \<open>The dictionaries \<^verbatim>\<open>{"name", "rmp_link"}\<close> (line 79) and \<^verbatim>\<open>professor_data\<close> (line 134).
  A row of the table \<^verbatim>\<open>professors\<close> has the columns of \<^verbatim>\<open>professor_data\<close>.\<close>

record professor =
  name :: string
  rmp_link :: string

record professor_data = professor +
  rating_1_count :: json
  rating_2_count :: json
  rating_3_count :: json
  rating_4_count :: json
  rating_5_count :: json

text \<open>A fetched profile page after \<^verbatim>\<open>BeautifulSoup(response.text, 'html.parser')\<close>: the
  \<^verbatim>\<open>.string\<close> of each \<^verbatim>\<open>script\<close> element in document order (\<open>None\<close> for an element
  without a single string child).\<close>

type_synonym soup = "string option list"

text \<open>The lines the script prints, with the formatted values as arguments.\<close>

datatype msg =
    Starting_link_scraping
  | No_cookie_popup string
  | Ad_popup_not_found
  | Clicked_show_more
  | Element_blocked
  | No_more_show_more
  | Scraped nat
  | Connected
  | Sample_data "professor_data list"
  | Error_connecting string
  | Exiting_connection_error
  | Fetching_ratings string
  | Stored_ratings string
  | Error_storing string string
  | No_rating_distributions string
  | Completed

text \<open>Every call that leaves the process, and every printed line, in the order issued.\<close>

datatype event =
    Print msg
  | DriverChrome
  | DriverMaximize
  | DriverSetPageLoadTimeout nat
  | DriverGet string
  | DriverQuit
  | RequestsGet string
  | StoreProbe
  | StoreSelect string
  | StoreUpdate professor_data string
  | StoreInsert professor_data

text \<open>
  The answers of the outside world. \<open>store_fault i\<close> is the exception the \<open>i\<close>-th call
  to the table raises, if any; \<open>http_get i url\<close> is what the \<open>i\<close>-th \<^verbatim>\<open>requests.get\<close>
  gives; \<open>show_more i\<close> is the exception raised inside the \<open>i\<close>-th pass of the
  pagination loop (\<open>None\<close>: the button was found and clicked). \<open>json_loads\<close> is the library
  function \<^verbatim>\<open>json.loads\<close>.
\<close>

record env =
  driver_get_fault :: "exn option"
  cookie_popup :: "exn option"
  ad_popup :: "exn option"
  show_more :: "nat \<Rightarrow> exn option"
  page_cards :: "card list"
  http_get :: "nat \<Rightarrow> string \<Rightarrow> exn + soup"
  json_loads :: "string \<Rightarrow> exn + json"
  store_fault :: "nat \<Rightarrow> exn option"

record world =
  table :: "professor_data list"
  store_calls :: nat
  http_calls :: nat
  trace :: "event list"

definition emit :: "event \<Rightarrow> world \<Rightarrow> world" where
  "emit e w = w\<lparr>trace := trace w @ [e]\<rparr>"


section \<open>The table client\<close>

text \<open>
  The table \<^verbatim>\<open>professors\<close> behind \<^verbatim>\<open>supabase.table('professors')\<close>. Each \<^verbatim>\<open>execute()\<close> is one
  call: it is recorded, it advances the call counter, and it either raises the fault the
  outside world has for it (the table is then as before) or performs the request.
  A filter \<^verbatim>\<open>eq('name', n)\<close> selects every row whose column \<^verbatim>\<open>name\<close> equals \<open>n\<close>, for
  \<^verbatim>\<open>select\<close> and for \<^verbatim>\<open>update\<close> alike; \<^verbatim>\<open>update\<close> writes the columns it is given into each
  selected row; \<^verbatim>\<open>insert\<close> adds one row.
\<close>

definition execute ::
  "env \<Rightarrow> event \<Rightarrow> (professor_data list \<Rightarrow> 'a \<times> professor_data list) \<Rightarrow> world
    \<Rightarrow> (exn + 'a) \<times> world" where
  "execute env ev request w =
     (let w1 = (emit ev w)\<lparr>store_calls := Suc (store_calls w)\<rparr> in
      case store_fault env (store_calls w) of
        Some e \<Rightarrow> (Inl e, w1)
      | None \<Rightarrow> (case request (table w) of (response, t) \<Rightarrow> (Inr response, w1\<lparr>table := t\<rparr>)))"

definition select_limit_1 :: "env \<Rightarrow> world \<Rightarrow> (exn + professor_data list) \<times> world" where
  "select_limit_1 env w = execute env StoreProbe (\<lambda>t. (take 1 t, t)) w"

definition select_eq_name :: "env \<Rightarrow> string \<Rightarrow> world \<Rightarrow> (exn + professor_data list) \<times> world" where
  "select_eq_name env n w = execute env (StoreSelect n) (\<lambda>t. (filter (\<lambda>r. name r = n) t, t)) w"

definition set_columns :: "professor_data \<Rightarrow> professor_data \<Rightarrow> professor_data" where
  "set_columns d r =
     r\<lparr>name := name d, rmp_link := rmp_link d,
       rating_1_count := rating_1_count d, rating_2_count := rating_2_count d,
       rating_3_count := rating_3_count d, rating_4_count := rating_4_count d,
       rating_5_count := rating_5_count d\<rparr>"

definition update_eq_name :: "env \<Rightarrow> professor_data \<Rightarrow> string \<Rightarrow> world \<Rightarrow> (exn + unit) \<times> world" where
  "update_eq_name env d n w =
     execute env (StoreUpdate d n)
       (\<lambda>t. ((), map (\<lambda>r. if name r = n then set_columns d r else r) t)) w"

definition insert_row :: "env \<Rightarrow> professor_data \<Rightarrow> world \<Rightarrow> (exn + unit) \<times> world" where
  "insert_row env d w = execute env (StoreInsert d) (\<lambda>t. ((), t @ [d])) w"

section \<open>The link scraper (lines 34-85)\<close>

text \<open>
  The pagination loop of lines 54-67. A pass either clicks the button, or raises
  \<^verbatim>\<open>ElementClickInterceptedException\<close> (handled: the loop goes on), or raises
  \<^verbatim>\<open>NoSuchElementException\<close> (handled: the loop ends), or raises something else, which
  no clause catches. The loop has no bound of its own, so the model is a partial
  function: \<open>None\<close> is a loop that never ends.
\<close>

partial_function (option) show_more_loop ::
  "env \<Rightarrow> nat \<Rightarrow> world \<Rightarrow> ((exn + unit) \<times> world) option" where
  "show_more_loop env i w =
     (case show_more env i of
        None \<Rightarrow> show_more_loop env (Suc i) (emit (Print Clicked_show_more) w)
      | Some e \<Rightarrow>
          if exn_class e = ElementClickInterceptedException
          then show_more_loop env (Suc i) (emit (Print Element_blocked) w)
          else if exn_class e = NoSuchElementException
          then Some (Inr (), emit (Print No_more_show_more) w)
          else Some (Inl e, w))"

declare show_more_loop.simps [code]

text \<open>\<^verbatim>\<open>f"https://www.ratemyprofessors.com{href}"\<close>: an f-string renders \<^verbatim>\<open>None\<close> as the
  text \<^verbatim>\<open>None\<close>.\<close>

definition format_href :: "string option \<Rightarrow> string" where
  "format_href h = (case h of None \<Rightarrow> ''None'' | Some s \<Rightarrow> s)"

definition card_professor :: "card \<Rightarrow> professor" where
  "card_professor link =
     (let professor_name = (case card_name link of Some text \<Rightarrow> text | None \<Rightarrow> ''Unknown'');
          full_link = ''https://www.ratemyprofessors.com'' @ format_href (href link)
      in \<lparr>name = professor_name, rmp_link = full_link\<rparr>)"

text \<open>The loop of lines 74-82, appending to \<^verbatim>\<open>professors_data\<close>.\<close>

fun cards_loop :: "card list \<Rightarrow> professor list \<Rightarrow> professor list" where
  "cards_loop [] professors_data = professors_data"
| "cards_loop (link # links) professors_data =
     cards_loop links (professors_data @ [card_professor link])"

definition scrape_professor_links ::
  "env \<Rightarrow> string \<Rightarrow> world \<Rightarrow> ((exn + professor list) \<times> world) option" where
  "scrape_professor_links env url w =
     (let w1 = emit (DriverGet url)
                 (emit (DriverSetPageLoadTimeout 300) (emit (Print Starting_link_scraping) w))
      in case driver_get_fault env of
           Some e \<Rightarrow> Some (Inl e, w1)
         | None \<Rightarrow>
            (let w2 = (case cookie_popup env of
                         Some e \<Rightarrow> emit (Print (No_cookie_popup (str e))) w1
                       | None \<Rightarrow> w1);
                 w3 = (case ad_popup env of
                         Some e \<Rightarrow> emit (Print Ad_popup_not_found) w2
                       | None \<Rightarrow> w2)
             in case show_more_loop env 0 w3 of
                  None \<Rightarrow> None
                | Some (Inl e, w4) \<Rightarrow> Some (Inl e, w4)
                | Some (Inr u, w4) \<Rightarrow>
                   (let professors_data = cards_loop (page_cards env) []
                    in Some (Inr professors_data,
                             emit (Print (Scraped (length professors_data))) w4))))"


section \<open>The rating extractor (lines 87-104)\<close>

text \<open>
  The first pattern, \<^verbatim>\<open>re.compile('window.__RELAY_STORE__')\<close>, has an unescaped dot: it
  stands for any character but a newline. \<open>soup.find\<close> returns the first \<^verbatim>\<open>script\<close> element
  whose string the pattern is found in.
\<close>

definition marker_at :: "string \<Rightarrow> bool" where
  "marker_at s =
     (take 6 s = ''window'' \<and>
      (case drop 6 s of
         [] \<Rightarrow> False
       | c # rest \<Rightarrow> c \<noteq> CHR 0x0A \<and> take 15 rest = ''__RELAY_STORE__''))"

fun marker_search :: "string \<Rightarrow> bool" where
  "marker_search [] = False"
| "marker_search (c # cs) = (marker_at (c # cs) \<or> marker_search cs)"

fun find_script :: "soup \<Rightarrow> string option" where
  "find_script [] = None"
| "find_script (None # tags) = find_script tags"
| "find_script (Some s # tags) = (if marker_search s then Some s else find_script tags)"

text \<open>
  The second pattern, \<^verbatim>\<open>window\.__RELAY_STORE__\s*=\s*({.*?});\<close> with \<^verbatim>\<open>re.DOTALL\<close>: the
  marker with a literal dot, white space, \<^verbatim>\<open>=\<close>, white space, then group 1 from \<^verbatim>\<open>{\<close> to the
  first \<^verbatim>\<open>}\<close> that a \<^verbatim>\<open>;\<close> follows. \<^verbatim>\<open>re.search\<close> takes the leftmost position where the
  pattern matches. Characters are the code points below 256; \<open>py_isspace\<close> is \<^verbatim>\<open>\s\<close>
  on them.
\<close>

definition py_isspace :: "char \<Rightarrow> bool" where
  "py_isspace c = ((of_char c :: nat) \<in> {9..13} \<union> {28..32} \<union> {133, 160})"

fun lazy_until_close :: "string \<Rightarrow> string option" where
  "lazy_until_close [] = None"
| "lazy_until_close (c # cs) =
     (if take 2 (c # cs) = ''};'' then Some []
      else map_option ((#) c) (lazy_until_close cs))"

definition relay_store_at :: "string \<Rightarrow> string option" where
  "relay_store_at s =
     (if take 22 s = ''window.__RELAY_STORE__'' then
        (case dropWhile py_isspace (drop 22 s) of
           [] \<Rightarrow> None
         | c1 # r1 \<Rightarrow>
            if c1 = CHR ''='' then
              (case dropWhile py_isspace r1 of
                 [] \<Rightarrow> None
               | c2 # r2 \<Rightarrow>
                  if c2 = CHR ''{''
                  then map_option (\<lambda>body. ''{'' @ body @ ''}'') (lazy_until_close r2)
                  else None)
            else None)
      else None)"

fun relay_store_search :: "string \<Rightarrow> string option" where
  "relay_store_search [] = None"
| "relay_store_search (c # cs) =
     (case relay_store_at (c # cs) of
        Some group1 \<Rightarrow> Some group1
      | None \<Rightarrow> relay_store_search cs)"

text \<open>The scan of lines 98-102 over \<^verbatim>\<open>data.items()\<close>: the first value that is a \<^verbatim>\<open>dict\<close>
  whose \<^verbatim>\<open>__typename\<close> is the string \<^verbatim>\<open>ratingsDistribution\<close>, else \<^verbatim>\<open>None\<close>.\<close>

fun scan_items :: "(string \<times> json) list \<Rightarrow> (string \<times> json) list option" where
  "scan_items [] = None"
| "scan_items ((key, JDict d) # rest) =
     (if map_of d ''__typename'' = Some (JStr ''ratingsDistribution'') then Some d
      else scan_items rest)"
| "scan_items ((key, v) # rest) = scan_items rest"

text \<open>
  Lines 91-104 on a fetched page. \<^verbatim>\<open>re.search(...)\<close> is \<^verbatim>\<open>None\<close> when the second pattern
  does not match, and \<^verbatim>\<open>.group(1)\<close> on it raises \<^verbatim>\<open>AttributeError\<close>; \<^verbatim>\<open>json.loads\<close> raises
  on text that is not JSON; \<^verbatim>\<open>data.items()\<close> raises on a value that is not a \<^verbatim>\<open>dict\<close>.
  Nothing in the function catches.
\<close>

definition extract_distribution :: "env \<Rightarrow> soup \<Rightarrow> exn + (string \<times> json) list option" where
  "extract_distribution env soup =
     (case find_script soup of
        None \<Rightarrow> Inr None
      | Some script \<Rightarrow>
         (case relay_store_search script of
            None \<Rightarrow> Inl (Exn AttributeError ''NoneType object has no attribute group'')
          | Some json_str \<Rightarrow>
             (case json_loads env json_str of
                Inl e \<Rightarrow> Inl e
              | Inr data \<Rightarrow>
                 (case data of
                    JDict items \<Rightarrow> Inr (scan_items items)
                  | _ \<Rightarrow> Inl (Exn AttributeError ''object has no attribute items'')))))"

definition fetch_rating_distributions ::
  "env \<Rightarrow> string \<Rightarrow> world \<Rightarrow> (exn + (string \<times> json) list option) \<times> world" where
  "fetch_rating_distributions env full_link w =
     (let w1 = (emit (RequestsGet full_link) w)\<lparr>http_calls := Suc (http_calls w)\<rparr> in
      case http_get env (http_calls w) full_link of
        Inl e \<Rightarrow> (Inl e, w1)
      | Inr soup \<Rightarrow> (extract_distribution env soup, w1))"

section \<open>The orchestrator (lines 106-165)\<close>

definition test_supabase_connection :: "env \<Rightarrow> world \<Rightarrow> bool \<times> world" where
  "test_supabase_connection env w =
     (case select_limit_1 env w of
        (Inr rows, w1) \<Rightarrow> (True, emit (Print (Sample_data rows)) (emit (Print Connected) w1))
      | (Inl e, w1) \<Rightarrow> (False, emit (Print (Error_connecting (str e))) w1))"

text \<open>\<^verbatim>\<open>d.get(k, default)\<close>.\<close>

definition dict_get :: "(string \<times> json) list \<Rightarrow> string \<Rightarrow> json \<Rightarrow> json" where
  "dict_get d k dflt = (case map_of d k of Some v \<Rightarrow> v | None \<Rightarrow> dflt)"

text \<open>The dictionary of lines 134-142.\<close>

definition build_professor_data :: "professor \<Rightarrow> (string \<times> json) list \<Rightarrow> professor_data" where
  "build_professor_data professor rating_distributions =
     \<lparr>name = name professor,
      rmp_link = rmp_link professor,
      rating_1_count = dict_get rating_distributions ''r1'' (JInt 0),
      rating_2_count = dict_get rating_distributions ''r2'' (JInt 0),
      rating_3_count = dict_get rating_distributions ''r3'' (JInt 0),
      rating_4_count = dict_get rating_distributions ''r4'' (JInt 0),
      rating_5_count = dict_get rating_distributions ''r5'' (JInt 0)\<rparr>"

text \<open>The \<^verbatim>\<open>try\<close> block of lines 144-157. \<^verbatim>\<open>except Exception\<close> catches whatever a call to
  the table raises, so the block itself never raises.\<close>

definition store_professor :: "env \<Rightarrow> professor \<Rightarrow> professor_data \<Rightarrow> world \<Rightarrow> world" where
  "store_professor env professor d w =
     (case select_eq_name env (name professor) w of
        (Inl e, w1) \<Rightarrow> emit (Print (Error_storing (name professor) (str e))) w1
      | (Inr existing, w1) \<Rightarrow>
         (case (if existing \<noteq> [] then update_eq_name env d (name professor) w1
                else insert_row env d w1) of
            (Inl e, w2) \<Rightarrow> emit (Print (Error_storing (name professor) (str e))) w2
          | (Inr u, w2) \<Rightarrow> emit (Print (Stored_ratings (name professor))) w2))"

text \<open>\<^verbatim>\<open>if rating_distributions:\<close> holds for a \<^verbatim>\<open>dict\<close> that is not empty.\<close>

definition truthy :: "(string \<times> json) list option \<Rightarrow> bool" where
  "truthy r = (case r of None \<Rightarrow> False | Some d \<Rightarrow> d \<noteq> [])"

text \<open>One pass of the loop of lines 129-159. The call of line 132 is outside the
  \<^verbatim>\<open>try\<close> block: what it raises leaves the loop.\<close>

definition process_professor :: "env \<Rightarrow> professor \<Rightarrow> world \<Rightarrow> (exn + unit) \<times> world" where
  "process_professor env professor w =
     (case fetch_rating_distributions env (rmp_link professor)
             (emit (Print (Fetching_ratings (name professor))) w) of
        (Inl e, w1) \<Rightarrow> (Inl e, w1)
      | (Inr rating_distributions, w1) \<Rightarrow>
         (case rating_distributions of
            Some d \<Rightarrow>
              if truthy rating_distributions
              then (Inr (), store_professor env professor (build_professor_data professor d) w1)
              else (Inr (), emit (Print (No_rating_distributions (name professor))) w1)
          | None \<Rightarrow> (Inr (), emit (Print (No_rating_distributions (name professor))) w1)))"

fun professors_loop :: "env \<Rightarrow> professor list \<Rightarrow> world \<Rightarrow> (exn + unit) \<times> world" where
  "professors_loop env [] w = (Inr (), w)"
| "professors_loop env (professor # rest) w =
     (case process_professor env professor w of
        (Inl e, w1) \<Rightarrow> (Inl e, w1)
      | (Inr u, w1) \<Rightarrow> professors_loop env rest w1)"

definition BASE_URL :: string where
  "BASE_URL = ''https://www.ratemyprofessors.com/search/professors/971?q=*&did=11''"

definition main :: "env \<Rightarrow> world \<Rightarrow> ((exn + unit) \<times> world) option" where
  "main env w =
     (case test_supabase_connection env w of
        (False, w1) \<Rightarrow> Some (Inr (), emit (Print Exiting_connection_error) w1)
      | (True, w1) \<Rightarrow>
         (case scrape_professor_links env BASE_URL w1 of
            None \<Rightarrow> None
          | Some (Inl e, w2) \<Rightarrow> Some (Inl e, w2)
          | Some (Inr professors_data, w2) \<Rightarrow>
             (case professors_loop env professors_data w2 of
                (Inl e, w3) \<Rightarrow> Some (Inl e, w3)
              | (Inr u, w3) \<Rightarrow> Some (Inr (), emit (Print Completed) w3))))"

text \<open>
  The script as run: the browser session is opened when the module is loaded (lines
  27-32), then \<^verbatim>\<open>main()\<close>, then \<^verbatim>\<open>driver.quit()\<close> (lines 163-165). The two statements are
  in sequence, with no \<^verbatim>\<open>try\<close>/\<^verbatim>\<open>finally\<close>: an exception that leaves \<^verbatim>\<open>main\<close> ends the
  process before the second.
\<close>

definition start :: "professor_data list \<Rightarrow> world" where
  "start t = \<lparr>table = t, store_calls = 0, http_calls = 0, trace = [DriverChrome, DriverMaximize]\<rparr>"

definition script :: "env \<Rightarrow> professor_data list \<Rightarrow> ((exn + unit) \<times> world) option" where
  "script env t =
     (case main env (start t) of
        None \<Rightarrow> None
      | Some (Inl e, w) \<Rightarrow> Some (Inl e, w)
      | Some (Inr u, w) \<Rightarrow> Some (Inr (), emit DriverQuit w))"


section \<open>Notions used to state the properties\<close>

text \<open>The test of line 100 on one top-level value of the parsed store.\<close>

definition is_ratings_distribution :: "json \<Rightarrow> bool" where
  "is_ratings_distribution v =
     (case v of
        JDict d \<Rightarrow> map_of d ''__typename'' = Some (JStr ''ratingsDistribution'')
      | _ \<Rightarrow> False)"

text \<open>The rows of a table that a filter \<^verbatim>\<open>eq('name', n)\<close> selects.\<close>

definition rows_named :: "string \<Rightarrow> professor_data list \<Rightarrow> professor_data list" where
  "rows_named n t = filter (\<lambda>r. name r = n) t"

text \<open>The world after lines 130 and 88 of a loop pass: the line is printed and the
  request is sent.\<close>

definition fetched :: "professor \<Rightarrow> world \<Rightarrow> world" where
  "fetched p w =
     (emit (RequestsGet (rmp_link p)) (emit (Print (Fetching_ratings (name p))) w))
       \<lparr>http_calls := Suc (http_calls w)\<rparr>"

text \<open>The records for which an insert was issued so far.\<close>

definition inserts :: "world \<Rightarrow> professor_data set" where
  "inserts w = {d. StoreInsert d \<in> set (trace w)}"

text \<open>The names for which the loop reaches the \<^verbatim>\<open>try\<close> block, when it starts with
  \<open>k\<close> requests already sent: the professors with rating data, up to the first one
  whose fetch raises.\<close>

fun written :: "env \<Rightarrow> nat \<Rightarrow> professor list \<Rightarrow> string list" where
  "written env k [] = []"
| "written env k (p # ps) =
     (case http_get env k (rmp_link p) of
        Inl e \<Rightarrow> []
      | Inr soup \<Rightarrow>
         (case extract_distribution env soup of
            Inl e \<Rightarrow> []
          | Inr r \<Rightarrow> (if truthy r then [name p] else []) @ written env (Suc k) ps))"

section \<open>Example inputs\<close>

text \<open>
  Concrete answers of the outside world, used to run the model. Two profile pages carry
  an embedded store with one object tagged \<^verbatim>\<open>ratingsDistribution\<close>, one page has no
  embedded store, and one has a store whose text is not JSON. \<open>ex_json_loads\<close> is
  \<^verbatim>\<open>json.loads\<close> on the texts that occur here.
\<close>

definition script_a :: string where
  "script_a = ''window.__RELAY_STORE__ = {\"d\":{\"__typename\":\"ratingsDistribution\",\"r1\":3}};''"

definition script_b :: string where
  "script_b = ''window.__RELAY_STORE__ = {\"d\":{\"__typename\":\"ratingsDistribution\",\"r5\":4}};''"

definition script_broken :: string where
  "script_broken = ''window.__RELAY_STORE__ = {broken};''"

definition ex_json_loads :: "string \<Rightarrow> exn + json" where
  "ex_json_loads s =
     (if s = ''{\"d\":{\"__typename\":\"ratingsDistribution\",\"r1\":3}}''
      then Inr (JDict [(''d'', JDict [(''__typename'', JStr ''ratingsDistribution''),
                                      (''r1'', JInt 3)])])
      else if s = ''{\"d\":{\"__typename\":\"ratingsDistribution\",\"r5\":4}}''
      then Inr (JDict [(''d'', JDict [(''__typename'', JStr ''ratingsDistribution''),
                                      (''r5'', JInt 4)])])
      else Inl (Exn JSONDecodeError ''Expecting property name enclosed in double quotes''))"

definition ex_http_get :: "nat \<Rightarrow> string \<Rightarrow> exn + soup" where
  "ex_http_get i url =
     (if url = ''https://www.ratemyprofessors.com/professor/1'' then Inr [None, Some script_a]
      else if url = ''https://www.ratemyprofessors.com/professor/7'' then Inr [Some script_b]
      else if url = ''https://www.ratemyprofessors.com/professor/2'' then Inr [Some ''var x = 1;'']
      else if url = ''https://www.ratemyprofessors.com/professor/3'' then Inr [Some script_broken]
      else Inl (Exn RequestException ''Failed to resolve host''))"

definition ex_cards :: "card list" where
  "ex_cards =
     [\<lparr>card_name = Some ''Ada'', href = Some ''/professor/1''\<rparr>,
      \<lparr>card_name = Some ''Bob'', href = Some ''/professor/2''\<rparr>,
      \<lparr>card_name = Some ''Ada'', href = Some ''/professor/7''\<rparr>]"

definition env0 :: env where
  "env0 =
     \<lparr>driver_get_fault = None,
      cookie_popup = Some (Exn WebDriverException ''timeout''),
      ad_popup = None,
      show_more = (\<lambda>i. if i < 1 then None
                         else Some (Exn NoSuchElementException ''no such element'')),
      page_cards = ex_cards,
      http_get = ex_http_get,
      json_loads = ex_json_loads,
      store_fault = (\<lambda>i. None)\<rparr>"

definition ada_1 :: professor where
  "ada_1 = \<lparr>name = ''Ada'', rmp_link = ''https://www.ratemyprofessors.com/professor/1''\<rparr>"

definition bob_2 :: professor where
  "bob_2 = \<lparr>name = ''Bob'', rmp_link = ''https://www.ratemyprofessors.com/professor/2''\<rparr>"

definition cy_3 :: professor where
  "cy_3 = \<lparr>name = ''Cy'', rmp_link = ''https://www.ratemyprofessors.com/professor/3''\<rparr>"

definition ada_7 :: professor where
  "ada_7 = \<lparr>name = ''Ada'', rmp_link = ''https://www.ratemyprofessors.com/professor/7''\<rparr>"

definition nobody :: professor where
  "nobody = \<lparr>name = ''Unknown'', rmp_link = ''https://www.ratemyprofessors.comNone''\<rparr>"

definition env_store_down :: env where
  "env_store_down =
     env0\<lparr>store_fault := (\<lambda>i. if i = 0 then Some (Exn APIError ''timed out'') else None)\<rparr>"

definition env_broken_first :: env where
  "env_broken_first =
     env0\<lparr>page_cards := [\<lparr>card_name = Some ''Cy'', href = Some ''/professor/3''\<rparr>,
                            \<lparr>card_name = Some ''Ada'', href = Some ''/professor/1''\<rparr>]\<rparr>"

definition env_update_fails :: env where
  "env_update_fails =
     env0\<lparr>store_fault := (\<lambda>i. if i = 3 then Some (Exn APIError ''timed out'') else None)\<rparr>"

definition env_page_load_timeout :: env where
  "env_page_load_timeout =
     env0\<lparr>driver_get_fault := Some (Exn WebDriverException ''timeout: page load'')\<rparr>"

text \<open>The world at the end of the script on \<open>env0\<close> from an empty table, and at the
  end of a second run on the table the first one left.\<close>

definition ada_7_row :: professor_data where
  "ada_7_row =
     \<lparr>name = ''Ada'', rmp_link = ''https://www.ratemyprofessors.com/professor/7'',
      rating_1_count = JInt 0, rating_2_count = JInt 0, rating_3_count = JInt 0,
      rating_4_count = JInt 0, rating_5_count = JInt 4\<rparr>"

definition ada_1_row :: professor_data where
  "ada_1_row =
     \<lparr>name = ''Ada'', rmp_link = ''https://www.ratemyprofessors.com/professor/1'',
      rating_1_count = JInt 3, rating_2_count = JInt 0, rating_3_count = JInt 0,
      rating_4_count = JInt 0, rating_5_count = JInt 0\<rparr>"

definition run_1 :: world where
  "run_1 =
     \<lparr>table = [ada_7_row], store_calls = 5, http_calls = 3,
      trace =
        [DriverChrome, DriverMaximize, StoreProbe, Print Connected, Print (Sample_data []),
         Print Starting_link_scraping, DriverSetPageLoadTimeout 300, DriverGet BASE_URL,
         Print (No_cookie_popup ''timeout''), Print Clicked_show_more,
         Print No_more_show_more, Print (Scraped 3),
         Print (Fetching_ratings ''Ada''),
         RequestsGet ''https://www.ratemyprofessors.com/professor/1'',
         StoreSelect ''Ada'', StoreInsert ada_1_row, Print (Stored_ratings ''Ada''),
         Print (Fetching_ratings ''Bob''),
         RequestsGet ''https://www.ratemyprofessors.com/professor/2'',
         Print (No_rating_distributions ''Bob''),
         Print (Fetching_ratings ''Ada''),
         RequestsGet ''https://www.ratemyprofessors.com/professor/7'',
         StoreSelect ''Ada'', StoreUpdate ada_7_row ''Ada'', Print (Stored_ratings ''Ada''),
         Print Completed, DriverQuit]\<rparr>"

definition run_2 :: world where
  "run_2 =
     \<lparr>table = [ada_7_row], store_calls = 5, http_calls = 3,
      trace =
        [DriverChrome, DriverMaximize, StoreProbe, Print Connected,
         Print (Sample_data [ada_7_row]),
         Print Starting_link_scraping, DriverSetPageLoadTimeout 300, DriverGet BASE_URL,
         Print (No_cookie_popup ''timeout''), Print Clicked_show_more,
         Print No_more_show_more, Print (Scraped 3),
         Print (Fetching_ratings ''Ada''),
         RequestsGet ''https://www.ratemyprofessors.com/professor/1'',
         StoreSelect ''Ada'', StoreUpdate ada_1_row ''Ada'', Print (Stored_ratings ''Ada''),
         Print (Fetching_ratings ''Bob''),
         RequestsGet ''https://www.ratemyprofessors.com/professor/2'',
         Print (No_rating_distributions ''Bob''),
         Print (Fetching_ratings ''Ada''),
         RequestsGet ''https://www.ratemyprofessors.com/professor/7'',
         StoreSelect ''Ada'', StoreUpdate ada_7_row ''Ada'', Print (Stored_ratings ''Ada''),
         Print Completed, DriverQuit]\<rparr>"

definition ex_table :: "professor_data list" where
  "ex_table =
     [\<lparr>name = ''Ada'', rmp_link = ''https://www.ratemyprofessors.com/professor/1'',
       rating_1_count = JInt 3, rating_2_count = JInt 0, rating_3_count = JInt 0,
       rating_4_count = JInt 0, rating_5_count = JInt 0\<rparr>,
      \<lparr>name = ''Bob'', rmp_link = ''https://www.ratemyprofessors.com/professor/2'',
       rating_1_count = JInt 1, rating_2_count = JInt 1, rating_3_count = JInt 1,
       rating_4_count = JInt 1, rating_5_count = JInt 1\<rparr>,
      \<lparr>name = ''Ada'', rmp_link = ''https://www.ratemyprofessors.com/professor/9'',
       rating_1_count = JInt 2, rating_2_count = JInt 2, rating_3_count = JInt 2,
       rating_4_count = JInt 2, rating_5_count = JInt 2\<rparr>]"

definition idle :: "professor_data list \<Rightarrow> world" where
  "idle t = \<lparr>table = t, store_calls = 0, http_calls = 0, trace = []\<rparr>"


section \<open>Basic facts\<close>

lemma table_emit [simp]: "table (emit e w) = table w"
  and store_calls_emit [simp]: "store_calls (emit e w) = store_calls w"
  and http_calls_emit [simp]: "http_calls (emit e w) = http_calls w"
  and trace_emit [simp]: "trace (emit e w) = trace w @ [e]"
  by (simp_all add: emit_def)

lemma fetch_result:
  "fetch_rating_distributions env url w =
     ((case http_get env (http_calls w) url of Inl e \<Rightarrow> Inl e
       | Inr soup \<Rightarrow> extract_distribution env soup),
      (emit (RequestsGet url) w)\<lparr>http_calls := Suc (http_calls w)\<rparr>)"
  by (simp add: fetch_rating_distributions_def split: sum.splits)

lemma cards_loop_append: "cards_loop cards acc = acc @ map card_professor cards"
  by (induction cards arbitrary: acc) simp_all

lemma scrape_professor_links_cards:
  assumes "scrape_professor_links env url w = Some (Inr ps, w')"
  shows "ps = cards_loop (page_cards env) []"
  using assms
  by (auto simp: scrape_professor_links_def Let_def split: option.splits sum.splits prod.splits)

text \<open>What the test of line 91 means: a \<^verbatim>\<open>script\<close> element is found exactly when the
  string of some element contains \<^verbatim>\<open>window\<close>, one character that is not a newline, and
  \<^verbatim>\<open>__RELAY_STORE__\<close>.\<close>

lemma take_is_prefix: "take (length p) s = p \<longleftrightarrow> (\<exists>r. s = p @ r)"
  by (metis append_eq_conv_conj append_take_drop_id)

lemma marker_at_iff:
  "marker_at s \<longleftrightarrow>
     (\<exists>c post. s = ''window'' @ c # ''__RELAY_STORE__'' @ post \<and> c \<noteq> CHR 0x0A)"
proof
  assume m: "marker_at s"
  have len: "length ''window'' = 6" "length ''__RELAY_STORE__'' = 15"
    by simp_all
  from m have "take (length ''window'') s = ''window''"
    unfolding len by (simp add: marker_at_def)
  then obtain r where r: "s = ''window'' @ r"
    using take_is_prefix [of "''window''" s] by blast
  with m obtain c rest where c: "r = c # rest" "c \<noteq> CHR 0x0A"
    and t: "take 15 rest = ''__RELAY_STORE__''"
    by (auto simp: marker_at_def split: list.splits)
  from t have "take (length ''__RELAY_STORE__'') rest = ''__RELAY_STORE__''"
    unfolding len .
  then obtain post where "rest = ''__RELAY_STORE__'' @ post"
    using take_is_prefix [of "''__RELAY_STORE__''" rest] by blast
  with r c show "\<exists>c post. s = ''window'' @ c # ''__RELAY_STORE__'' @ post \<and> c \<noteq> CHR 0x0A"
    by blast
next
  assume "\<exists>c post. s = ''window'' @ c # ''__RELAY_STORE__'' @ post \<and> c \<noteq> CHR 0x0A"
  then show "marker_at s"
    by (auto simp: marker_at_def)
qed

lemma marker_search_iff:
  "marker_search s \<longleftrightarrow>
     (\<exists>pre c post. s = pre @ ''window'' @ c # ''__RELAY_STORE__'' @ post \<and> c \<noteq> CHR 0x0A)"
proof (induction s)
  case Nil
  show ?case by simp
next
  case (Cons a s)
  show ?case
  proof
    assume "marker_search (a # s)"
    then consider "marker_at (a # s)" | "marker_search s"
      by auto
    then show "\<exists>pre c post. a # s = pre @ ''window'' @ c # ''__RELAY_STORE__'' @ post \<and> c \<noteq> CHR 0x0A"
    proof cases
      case 1
      then obtain c post where "a # s = [] @ ''window'' @ c # ''__RELAY_STORE__'' @ post" "c \<noteq> CHR 0x0A"
        unfolding marker_at_iff by auto
      then show ?thesis by blast
    next
      case 2
      then obtain pre c post where "s = pre @ ''window'' @ c # ''__RELAY_STORE__'' @ post" "c \<noteq> CHR 0x0A"
        using Cons.IH by blast
      then have "a # s = (a # pre) @ ''window'' @ c # ''__RELAY_STORE__'' @ post" "c \<noteq> CHR 0x0A"
        by simp_all
      then show ?thesis by blast
    qed
  next
    assume "\<exists>pre c post. a # s = pre @ ''window'' @ c # ''__RELAY_STORE__'' @ post \<and> c \<noteq> CHR 0x0A"
    then obtain pre c post where eq: "a # s = pre @ ''window'' @ c # ''__RELAY_STORE__'' @ post"
      and c: "c \<noteq> CHR 0x0A"
      by blast
    show "marker_search (a # s)"
    proof (cases pre)
      case Nil
      with eq c have "marker_at (a # s)"
        unfolding marker_at_iff by auto
      then show ?thesis by simp
    next
      case (Cons b pre')
      with eq have "s = pre' @ ''window'' @ c # ''__RELAY_STORE__'' @ post"
        by simp
      with c have "marker_search s"
        using Cons.IH by blast
      then show ?thesis by simp
    qed
  qed
qed

lemma find_script_None:
  "find_script soup = None \<longleftrightarrow> (\<forall>s. Some s \<in> set soup \<longrightarrow> \<not> marker_search s)"
  by (induction soup rule: find_script.induct) auto

section \<open>The link scraper builds each URL by concatenation\<close>

text \<open>
  Claim C9. When the link scraper returns, it returns one entry per professor card, in
  order: no card is skipped, and the loop over the cards has no failing branch. The
  link of the entry of a card with an \<^verbatim>\<open>href\<close> attribute is the origin
  \<^verbatim>\<open>https://www.ratemyprofessors.com\<close> followed by the attribute's value, whatever the
  value is; the link of the entry of a card without the attribute is
  \<^verbatim>\<open>https://www.ratemyprofessors.comNone\<close>. The name of the entry is the text of the card's
  name element, or \<^verbatim>\<open>Unknown\<close> when the card has none.
\<close>

theorem scraped_link_is_origin_plus_href:
  assumes "scrape_professor_links env url w = Some (Inr ps, w')"
    and "i < length (page_cards env)"
  shows "length ps = length (page_cards env) \<and>
         (\<forall>h. href (page_cards env ! i) = Some h \<longrightarrow>
              rmp_link (ps ! i) = ''https://www.ratemyprofessors.com'' @ h) \<and>
         (href (page_cards env ! i) = None \<longrightarrow>
            rmp_link (ps ! i) = ''https://www.ratemyprofessors.comNone'') \<and>
         name (ps ! i) =
           (case card_name (page_cards env ! i) of Some text \<Rightarrow> text | None \<Rightarrow> ''Unknown'')"
proof -
  have ps: "ps = map card_professor (page_cards env)"
    using scrape_professor_links_cards [OF assms(1)] by (simp add: cards_loop_append)
  have link: "rmp_link (card_professor c) =
      ''https://www.ratemyprofessors.com'' @ (case href c of None \<Rightarrow> ''None'' | Some h \<Rightarrow> h)"
    and who: "name (card_professor c) =
      (case card_name c of Some text \<Rightarrow> text | None \<Rightarrow> ''Unknown'')" for c
    by (simp_all add: card_professor_def format_href_def)
  show ?thesis
    using assms(2) by (simp add: ps link who)
qed

theorem scraped_link_is_origin_plus_href_witness:
  "scrape_professor_links
       (env0\<lparr>page_cards := [\<lparr>card_name = Some ''Ada'', href = Some ''/professor/1''\<rparr>,
                              \<lparr>card_name = None, href = None\<rparr>]\<rparr>)
       BASE_URL (idle []) =
     Some (Inr [ada_1, nobody],
           \<lparr>table = [], store_calls = 0, http_calls = 0,
            trace = [Print Starting_link_scraping, DriverSetPageLoadTimeout 300,
                     DriverGet BASE_URL, Print (No_cookie_popup ''timeout''),
                     Print Clicked_show_more, Print No_more_show_more, Print (Scraped 2)]\<rparr>) \<and>
   rmp_link ([ada_1, nobody] ! 0) = ''https://www.ratemyprofessors.com/professor/1'' \<and>
   rmp_link ([ada_1, nobody] ! 1) = ''https://www.ratemyprofessors.comNone'' \<and>
   name ([ada_1, nobody] ! 0) = ''Ada'' \<and> name ([ada_1, nobody] ! 1) = ''Unknown''"
proof -
  let ?env = "env0\<lparr>page_cards := [\<lparr>card_name = Some ''Ada'', href = Some ''/professor/1''\<rparr>,
                                     \<lparr>card_name = None, href = None\<rparr>]\<rparr>"
  let ?w = "\<lparr>table = [], store_calls = 0, http_calls = 0,
            trace = [Print Starting_link_scraping, DriverSetPageLoadTimeout 300,
                     DriverGet BASE_URL, Print (No_cookie_popup ''timeout''),
                     Print Clicked_show_more, Print No_more_show_more, Print (Scraped 2)]\<rparr>"
  have run: "scrape_professor_links ?env BASE_URL (idle []) = Some (Inr [ada_1, nobody], ?w)"
    by (simp add: scrape_professor_links_def env0_def idle_def emit_def show_more_loop.simps
        card_professor_def format_href_def ada_1_def nobody_def)
  have first: "0 < length (page_cards ?env)"
    and present: "href (page_cards ?env ! 0) = Some ''/professor/1''"
    and named: "card_name (page_cards ?env ! 0) = Some ''Ada''"
    and second: "1 < length (page_cards ?env)"
    and missing: "href (page_cards ?env ! 1) = None"
    and unnamed: "card_name (page_cards ?env ! 1) = None"
    by (simp_all add: env0_def)
  from scraped_link_is_origin_plus_href [OF run first] present named
  have "rmp_link ([ada_1, nobody] ! 0) = ''https://www.ratemyprofessors.com'' @ ''/professor/1''"
    and ada: "name ([ada_1, nobody] ! 0) = ''Ada''"
    by simp_all
  then have with_href:
    "rmp_link ([ada_1, nobody] ! 0) = ''https://www.ratemyprofessors.com/professor/1''"
    by simp
  from scraped_link_is_origin_plus_href [OF run second] missing unnamed
  have without_href: "rmp_link ([ada_1, nobody] ! 1) = ''https://www.ratemyprofessors.comNone''"
    and unknown: "name ([ada_1, nobody] ! 1) = ''Unknown''"
    by simp_all
  from run with_href without_href ada unknown show ?thesis
    by blast
qed

section \<open>A page without the marker\<close>

text \<open>
  Claim C6. When no \<^verbatim>\<open>script\<close> element of the fetched profile page carries the marker,
  \<open>fetch_rating_distributions\<close> returns \<^verbatim>\<open>None\<close>, and the pass of the loop for that
  professor issues the HTTP request and two printed lines and nothing else: no
  existence query, no update and no insert, and the table is as before.
\<close>

theorem marker_absent_no_store_call:
  assumes "http_get env (http_calls w) (rmp_link p) = Inr soup"
    and "find_script soup = None"
  shows "fst (fetch_rating_distributions env (rmp_link p) w) = Inr None \<and>
         process_professor env p w =
           (Inr (), w\<lparr>http_calls := Suc (http_calls w),
                      trace := trace w @ [Print (Fetching_ratings (name p)),
                                          RequestsGet (rmp_link p),
                                          Print (No_rating_distributions (name p))]\<rparr>)"
  using assms
  by (simp add: fetch_result extract_distribution_def process_professor_def emit_def)

theorem marker_absent_no_store_call_witness:
  "fst (fetch_rating_distributions env0 (rmp_link bob_2) (idle [])) = Inr None \<and>
   process_professor env0 bob_2 (idle []) =
     (Inr (), \<lparr>table = [], store_calls = 0, http_calls = 1,
               trace = [Print (Fetching_ratings ''Bob''),
                        RequestsGet ''https://www.ratemyprofessors.com/professor/2'',
                        Print (No_rating_distributions ''Bob'')]\<rparr>)"
proof -
  have page: "http_get env0 (http_calls (idle [])) (rmp_link bob_2) = Inr [Some ''var x = 1;'']"
    by (simp add: env0_def ex_http_get_def bob_2_def)
  have absent: "find_script [Some ''var x = 1;''] = None"
    by (simp add: marker_at_def)
  show ?thesis
    using marker_absent_no_store_call [OF page absent]
    by (simp add: idle_def bob_2_def)
qed

section \<open>A failed connectivity probe\<close>

text \<open>
  Claim C7. When the probe of \<open>test_supabase_connection\<close> (the first call to the
  table) raises, the whole run consists of the probe, two printed lines and the
  release of the browser session: no page is opened in the browser, no profile is
  requested, no row is queried, updated or inserted, and the table is as before.
\<close>

theorem probe_failure_aborts_before_scraping:
  assumes "store_fault env 0 = Some e"
  shows "script env t =
           Some (Inr (), \<lparr>table = t, store_calls = 1, http_calls = 0,
                          trace = [DriverChrome, DriverMaximize, StoreProbe,
                                   Print (Error_connecting (str e)),
                                   Print Exiting_connection_error, DriverQuit]\<rparr>)"
  using assms
  by (simp add: script_def main_def test_supabase_connection_def select_limit_1_def
      execute_def start_def emit_def)

theorem probe_failure_aborts_before_scraping_witness:
  "script (env0\<lparr>store_fault := (\<lambda>i. Some (Exn APIError ''Invalid API key''))\<rparr>) [] =
     Some (Inr (), \<lparr>table = [], store_calls = 1, http_calls = 0,
                    trace = [DriverChrome, DriverMaximize, StoreProbe,
                             Print (Error_connecting ''Invalid API key''),
                             Print Exiting_connection_error, DriverQuit]\<rparr>)"
  using probe_failure_aborts_before_scraping
          [of "env0\<lparr>store_fault := (\<lambda>i. Some (Exn APIError ''Invalid API key''))\<rparr>"
              "Exn APIError ''Invalid API key''" "[]"]
  by simp


section \<open>From the embedded store to the record\<close>

lemma scan_items_filter:
  "scan_items items =
     (case filter is_ratings_distribution (map snd items) of
        JDict d # _ \<Rightarrow> Some d
      | _ \<Rightarrow> None)"
  by (induction items rule: scan_items.induct) (simp_all add: is_ratings_distribution_def)

lemma scan_items_not_empty: "scan_items items = Some d \<Longrightarrow> d \<noteq> []"
  by (induction items rule: scan_items.induct) (auto split: if_splits)

lemma extract_distribution_not_empty: "extract_distribution env soup = Inr (Some d) \<Longrightarrow> d \<noteq> []"
  by (auto simp: extract_distribution_def dest: scan_items_not_empty
      split: option.splits sum.splits json.splits)

text \<open>
  Claim C3. Take a profile page whose embedded store is found, cut out and parsed, and let
  exactly one of its top-level values be an object tagged \<^verbatim>\<open>ratingsDistribution\<close>, with
  items \<open>d\<close>. Then \<open>fetch_rating_distributions\<close> returns \<open>d\<close>, and the loop pass hands to
  the table the record whose count for star 1 is the value of \<^verbatim>\<open>r1\<close> in \<open>d\<close>, and so on up
  to star 5 and \<^verbatim>\<open>r5\<close>, with 0 in place of each key that \<open>d\<close> does not have.
\<close>

theorem tagged_distribution_becomes_the_record:
  assumes "http_get env (http_calls w) (rmp_link p) = Inr soup"
    and "find_script soup = Some script_text"
    and "relay_store_search script_text = Some json_str"
    and "json_loads env json_str = Inr (JDict items)"
    and "filter is_ratings_distribution (map snd items) = [JDict d]"
  shows "fst (fetch_rating_distributions env (rmp_link p) w) = Inr (Some d) \<and>
         process_professor env p w =
           (Inr (),
            store_professor env p
              \<lparr>name = name p, rmp_link = rmp_link p,
               rating_1_count = (case map_of d ''r1'' of Some r1 \<Rightarrow> r1 | None \<Rightarrow> JInt 0),
               rating_2_count = (case map_of d ''r2'' of Some r2 \<Rightarrow> r2 | None \<Rightarrow> JInt 0),
               rating_3_count = (case map_of d ''r3'' of Some r3 \<Rightarrow> r3 | None \<Rightarrow> JInt 0),
               rating_4_count = (case map_of d ''r4'' of Some r4 \<Rightarrow> r4 | None \<Rightarrow> JInt 0),
               rating_5_count = (case map_of d ''r5'' of Some r5 \<Rightarrow> r5 | None \<Rightarrow> JInt 0)\<rparr>
              (w\<lparr>http_calls := Suc (http_calls w),
                 trace := trace w @ [Print (Fetching_ratings (name p)),
                                     RequestsGet (rmp_link p)]\<rparr>))"
proof -
  have found: "scan_items items = Some d"
    using assms(5) by (simp add: scan_items_filter)
  have extracted: "extract_distribution env soup = Inr (Some d)"
    using assms(2-4) found by (simp add: extract_distribution_def)
  have filled: "d \<noteq> []"
    using found by (rule scan_items_not_empty)
  have after_fetch:
    "(emit (RequestsGet (rmp_link p)) (emit (Print (Fetching_ratings (name p))) w))
        \<lparr>http_calls := Suc (http_calls w)\<rparr> =
     w\<lparr>http_calls := Suc (http_calls w),
       trace := trace w @ [Print (Fetching_ratings (name p)), RequestsGet (rmp_link p)]\<rparr>"
    by (simp add: emit_def)
  have "process_professor env p w =
          (Inr (), store_professor env p (build_professor_data p d)
            ((emit (RequestsGet (rmp_link p)) (emit (Print (Fetching_ratings (name p))) w))
               \<lparr>http_calls := Suc (http_calls w)\<rparr>))"
    using assms(1) extracted filled
    by (simp add: fetch_result process_professor_def truthy_def)
  then show ?thesis
    using assms(1) extracted
    by (simp add: after_fetch fetch_result build_professor_data_def dict_get_def)
qed


lemma script_a_found: "find_script [None, Some script_a] = Some script_a"
  by (simp add: script_a_def marker_at_def)

lemma script_a_group: "relay_store_search script_a =
    Some ''{\"d\":{\"__typename\":\"ratingsDistribution\",\"r1\":3}}''"
  by (simp add: script_a_def relay_store_at_def py_isspace_def)

lemma script_broken_found: "find_script [Some script_broken] = Some script_broken"
  by (simp add: script_broken_def marker_at_def)

lemma script_broken_group: "relay_store_search script_broken = Some ''{broken}''"
  by (simp add: script_broken_def relay_store_at_def py_isspace_def)

theorem tagged_distribution_becomes_the_record_witness:
  "fst (fetch_rating_distributions env0 (rmp_link ada_1) (idle [])) =
     Inr (Some [(''__typename'', JStr ''ratingsDistribution''), (''r1'', JInt 3)]) \<and>
   process_professor env0 ada_1 (idle []) =
     (Inr (),
      store_professor env0 ada_1
        \<lparr>name = ''Ada'', rmp_link = ''https://www.ratemyprofessors.com/professor/1'',
         rating_1_count = JInt 3, rating_2_count = JInt 0, rating_3_count = JInt 0,
         rating_4_count = JInt 0, rating_5_count = JInt 0\<rparr>
        \<lparr>table = [], store_calls = 0, http_calls = 1,
         trace = [Print (Fetching_ratings ''Ada''),
                  RequestsGet ''https://www.ratemyprofessors.com/professor/1'']\<rparr>)"
proof -
  let ?d = "[(''__typename'', JStr ''ratingsDistribution''), (''r1'', JInt 3)]"
  have page: "http_get env0 (http_calls (idle [])) (rmp_link ada_1) = Inr [None, Some script_a]"
    by (simp add: env0_def ex_http_get_def ada_1_def)
  have parsed: "json_loads env0 ''{\"d\":{\"__typename\":\"ratingsDistribution\",\"r1\":3}}'' =
      Inr (JDict [(''d'', JDict ?d)])"
    by (simp add: env0_def ex_json_loads_def)
  have one: "filter is_ratings_distribution (map snd [(''d'', JDict ?d)]) = [JDict ?d]"
    by (simp add: is_ratings_distribution_def)
  show ?thesis
    using tagged_distribution_becomes_the_record
            [OF page script_a_found script_a_group parsed one]
    by (simp add: idle_def ada_1_def)
qed

section \<open>Text that is not JSON\<close>

text \<open>
  The page of \<open>cy_3\<close> carries the marker, the second pattern cuts out \<^verbatim>\<open>{broken}\<close>, and
  \<^verbatim>\<open>json.loads\<close> raises on it. The call does not return \<^verbatim>\<open>None\<close>: it raises.
\<close>

theorem parse_failure_is_raised_counterexample:
  "http_get env0 0 (rmp_link cy_3) = Inr [Some script_broken] \<and>
   find_script [Some script_broken] = Some script_broken \<and>
   relay_store_search script_broken = Some ''{broken}'' \<and>
   json_loads env0 ''{broken}'' =
     Inl (Exn JSONDecodeError ''Expecting property name enclosed in double quotes'') \<and>
   fst (fetch_rating_distributions env0 (rmp_link cy_3) (idle [])) =
     Inl (Exn JSONDecodeError ''Expecting property name enclosed in double quotes'') \<and>
   fst (fetch_rating_distributions env0 (rmp_link cy_3) (idle [])) \<noteq> Inr None"
proof -
  have page: "http_get env0 0 (rmp_link cy_3) = Inr [Some script_broken]"
    by (simp add: env0_def ex_http_get_def cy_3_def)
  have broken: "json_loads env0 ''{broken}'' =
      Inl (Exn JSONDecodeError ''Expecting property name enclosed in double quotes'')"
    by (simp add: env0_def ex_json_loads_def)
  have raised: "fst (fetch_rating_distributions env0 (rmp_link cy_3) (idle [])) =
      Inl (Exn JSONDecodeError ''Expecting property name enclosed in double quotes'')"
    by (simp add: fetch_result extract_distribution_def idle_def page broken
        script_broken_found script_broken_group del: find_script.simps)
  then have differs: "fst (fetch_rating_distributions env0 (rmp_link cy_3) (idle [])) \<noteq> Inr None"
    by simp
  from page script_broken_found script_broken_group broken raised differs show ?thesis
    by blast
qed

text \<open>
  Claim C2, as the code has it. On a page without the marker \<open>fetch_rating_distributions\<close>
  returns \<^verbatim>\<open>None\<close>. On a page whose store text \<^verbatim>\<open>json.loads\<close> rejects, the exception of
  \<^verbatim>\<open>json.loads\<close> is the outcome of \<open>fetch_rating_distributions\<close>: the function has no
  handler.
\<close>

theorem marker_absent_is_no_data_parse_failure_raises:
  assumes "http_get env (http_calls w) url = Inr soup"
  shows "(find_script soup = None \<longrightarrow>
            fst (fetch_rating_distributions env url w) = Inr None) \<and>
         (\<forall>script_text json_str e.
            find_script soup = Some script_text \<and>
            relay_store_search script_text = Some json_str \<and>
            json_loads env json_str = Inl e \<longrightarrow>
            fst (fetch_rating_distributions env url w) = Inl e)"
  using assms by (simp add: fetch_result extract_distribution_def)

theorem marker_absent_is_no_data_parse_failure_raises_witness:
  "fst (fetch_rating_distributions env0 (rmp_link bob_2) (idle [])) = Inr None \<and>
   fst (fetch_rating_distributions env0 (rmp_link cy_3) (idle [])) =
     Inl (Exn JSONDecodeError ''Expecting property name enclosed in double quotes'')"
proof -
  have page_2: "http_get env0 (http_calls (idle [])) (rmp_link bob_2) = Inr [Some ''var x = 1;'']"
    by (simp add: env0_def ex_http_get_def bob_2_def)
  have absent: "find_script [Some ''var x = 1;''] = None"
    by (simp add: marker_at_def)
  have page_3: "http_get env0 (http_calls (idle [])) (rmp_link cy_3) = Inr [Some script_broken]"
    by (simp add: env0_def ex_http_get_def cy_3_def)
  have broken: "json_loads env0 ''{broken}'' =
      Inl (Exn JSONDecodeError ''Expecting property name enclosed in double quotes'')"
    by (simp add: env0_def ex_json_loads_def)
  from marker_absent_is_no_data_parse_failure_raises [OF page_2] absent
  have first: "fst (fetch_rating_distributions env0 (rmp_link bob_2) (idle [])) = Inr None"
    by blast
  from marker_absent_is_no_data_parse_failure_raises [OF page_3]
    script_broken_found script_broken_group broken
  have "fst (fetch_rating_distributions env0 (rmp_link cy_3) (idle [])) =
      Inl (Exn JSONDecodeError ''Expecting property name enclosed in double quotes'')"
    by blast
  with first show ?thesis
    by blast
qed


section \<open>The update reaches every row of the name\<close>

lemma execute_fault:
  "store_fault env (store_calls w) = Some e \<Longrightarrow>
   execute env ev request w = (Inl e, (emit ev w)\<lparr>store_calls := Suc (store_calls w)\<rparr>)"
  by (simp add: execute_def)

lemma execute_ok:
  "store_fault env (store_calls w) = None \<Longrightarrow>
   execute env ev request w =
     (Inr (fst (request (table w))),
      (emit ev w)\<lparr>store_calls := Suc (store_calls w), table := snd (request (table w))\<rparr>)"
  by (simp add: execute_def split: prod.splits)

lemma set_columns_all: "set_columns d r = (d :: professor_data)"
  by (simp add: set_columns_def)

lemma name_build_professor_data [simp]: "name (build_professor_data p d) = name p"
  by (simp add: build_professor_data_def)

lemma rows_named_overwrite:
  "name d = n \<Longrightarrow>
   rows_named n (map (\<lambda>r. if name r = n then d else r) t) = map (\<lambda>r. d) (rows_named n t)"
  by (induction t) (auto simp: rows_named_def)

lemma rows_named_overwrite_other:
  "name d = n \<Longrightarrow> m \<noteq> n \<Longrightarrow>
   rows_named m (map (\<lambda>r. if name r = n then d else r) t) = rows_named m t"
  by (induction t) (auto simp: rows_named_def)

text \<open>
  Claim C10. The existence query and the update both filter by \<^verbatim>\<open>eq('name', ...)\<close> and by
  nothing else. When the table holds more than one row of the professor's name and
  neither call fails, one pass of the \<^verbatim>\<open>try\<close> block issues one query and one update, and
  afterwards every row of that name is the new record, link and counts included; the
  rows of other names are as before, and no row is added.
\<close>

theorem update_reaches_every_row_of_the_name:
  assumes "store_fault env (store_calls w) = None"
    and "store_fault env (Suc (store_calls w)) = None"
    and "1 < length (rows_named (name p) (table w))"
  shows "store_professor env p (build_professor_data p d) w =
           w\<lparr>table := map (\<lambda>r. if name r = name p then build_professor_data p d else r) (table w),
             store_calls := Suc (Suc (store_calls w)),
             trace := trace w @ [StoreSelect (name p),
                                 StoreUpdate (build_professor_data p d) (name p),
                                 Print (Stored_ratings (name p))]\<rparr> \<and>
         (\<forall>r \<in> set (rows_named (name p) (table (store_professor env p (build_professor_data p d) w))).
            r = build_professor_data p d) \<and>
         length (rows_named (name p) (table (store_professor env p (build_professor_data p d) w))) =
           length (rows_named (name p) (table w))"
proof -
  let ?d = "build_professor_data p d"
  let ?t = "map (\<lambda>r. if name r = name p then ?d else r) (table w)"
  have existing: "filter (\<lambda>r. name r = name p) (table w) \<noteq> []"
    using assms(3) by (auto simp: rows_named_def)
  have run: "store_professor env p ?d w =
      w\<lparr>table := ?t, store_calls := Suc (Suc (store_calls w)),
        trace := trace w @ [StoreSelect (name p), StoreUpdate ?d (name p),
                            Print (Stored_ratings (name p))]\<rparr>"
    using assms(1,2) existing
    by (simp add: store_professor_def select_eq_name_def update_eq_name_def execute_ok
        set_columns_all emit_def)
  have rows: "rows_named (name p) ?t = map (\<lambda>r. ?d) (rows_named (name p) (table w))"
    by (simp add: rows_named_overwrite)
  show ?thesis
    unfolding run by (simp add: rows)
qed


theorem update_reaches_every_row_of_the_name_witness:
  "store_professor env0 ada_7
       (build_professor_data ada_7 [(''__typename'', JStr ''ratingsDistribution''), (''r5'', JInt 4)])
       (idle ex_table) =
     \<lparr>table =
        [\<lparr>name = ''Ada'', rmp_link = ''https://www.ratemyprofessors.com/professor/7'',
          rating_1_count = JInt 0, rating_2_count = JInt 0, rating_3_count = JInt 0,
          rating_4_count = JInt 0, rating_5_count = JInt 4\<rparr>,
         \<lparr>name = ''Bob'', rmp_link = ''https://www.ratemyprofessors.com/professor/2'',
          rating_1_count = JInt 1, rating_2_count = JInt 1, rating_3_count = JInt 1,
          rating_4_count = JInt 1, rating_5_count = JInt 1\<rparr>,
         \<lparr>name = ''Ada'', rmp_link = ''https://www.ratemyprofessors.com/professor/7'',
          rating_1_count = JInt 0, rating_2_count = JInt 0, rating_3_count = JInt 0,
          rating_4_count = JInt 0, rating_5_count = JInt 4\<rparr>],
      store_calls = 2, http_calls = 0,
      trace =
        [StoreSelect ''Ada'',
         StoreUpdate
           \<lparr>name = ''Ada'', rmp_link = ''https://www.ratemyprofessors.com/professor/7'',
            rating_1_count = JInt 0, rating_2_count = JInt 0, rating_3_count = JInt 0,
            rating_4_count = JInt 0, rating_5_count = JInt 4\<rparr> ''Ada'',
         Print (Stored_ratings ''Ada'')]\<rparr>"
proof -
  let ?d = "[(''__typename'', JStr ''ratingsDistribution''), (''r5'', JInt 4)]"
  have first: "store_fault env0 (store_calls (idle ex_table)) = None"
    and second: "store_fault env0 (Suc (store_calls (idle ex_table))) = None"
    by (simp_all add: env0_def)
  have two: "1 < length (rows_named (name ada_7) (table (idle ex_table)))"
    by (simp add: rows_named_def idle_def ex_table_def ada_7_def)
  from update_reaches_every_row_of_the_name [OF first second two, of ?d]
  have "store_professor env0 ada_7 (build_professor_data ada_7 ?d) (idle ex_table) =
      (idle ex_table)
        \<lparr>table := map (\<lambda>r. if name r = name ada_7 then build_professor_data ada_7 ?d else r)
                    (table (idle ex_table)),
         store_calls := Suc (Suc (store_calls (idle ex_table))),
         trace := trace (idle ex_table) @
                  [StoreSelect (name ada_7),
                   StoreUpdate (build_professor_data ada_7 ?d) (name ada_7),
                   Print (Stored_ratings (name ada_7))]\<rparr>"
    by blast
  then show ?thesis
    by (simp add: idle_def ex_table_def ada_7_def build_professor_data_def dict_get_def)
qed


section \<open>Failures during a loop pass\<close>

lemma fst_fetch_emit [simp]:
  "fst (fetch_rating_distributions env url (emit ev w)) = fst (fetch_rating_distributions env url w)"
  by (simp add: fetch_result)

lemma process_professor_cases:
  "process_professor env p w =
     (case fst (fetch_rating_distributions env (rmp_link p) w) of
        Inl e \<Rightarrow> (Inl e, fetched p w)
      | Inr None \<Rightarrow> (Inr (), emit (Print (No_rating_distributions (name p))) (fetched p w))
      | Inr (Some d) \<Rightarrow>
          if d \<noteq> [] then (Inr (), store_professor env p (build_professor_data p d) (fetched p w))
          else (Inr (), emit (Print (No_rating_distributions (name p))) (fetched p w)))"
  by (simp add: process_professor_def fetch_result truthy_def fetched_def
      split: sum.splits option.splits)

lemma fetched_fields [simp]:
  "table (fetched p w) = table w"
  "store_calls (fetched p w) = store_calls w"
  "http_calls (fetched p w) = Suc (http_calls w)"
  "trace (fetched p w) = trace w @ [Print (Fetching_ratings (name p)), RequestsGet (rmp_link p)]"
  by (simp_all add: fetched_def)

lemma store_professor_trace:
  "\<exists>evs. trace (store_professor env p d w) = trace w @ StoreSelect (name p) # evs"
  by (auto simp: store_professor_def select_eq_name_def update_eq_name_def insert_row_def
      execute_def Let_def split: option.splits)

lemma process_professor_trace:
  "\<exists>evs. trace (snd (process_professor env p w)) =
      trace w @ Print (Fetching_ratings (name p)) # RequestsGet (rmp_link p) # evs"
proof (cases "fst (fetch_rating_distributions env (rmp_link p) w)")
  case (Inl e)
  then show ?thesis by (simp add: process_professor_cases)
next
  case (Inr r)
  show ?thesis
  proof (cases r)
    case None
    with Inr show ?thesis by (simp add: process_professor_cases)
  next
    case (Some d)
    obtain evs where "trace (store_professor env p (build_professor_data p d) (fetched p w)) =
        trace (fetched p w) @ StoreSelect (name (build_professor_data p d)) # evs"
      using store_professor_trace [of env p "build_professor_data p d" "fetched p w"] by auto
    with Inr Some show ?thesis by (simp add: process_professor_cases)
  qed
qed

lemma professors_loop_trace:
  "\<exists>evs. trace (snd (professors_loop env ps w)) = trace w @ evs"
proof (induction ps arbitrary: w)
  case Nil
  show ?case by simp
next
  case (Cons p ps)
  obtain r w1 where step: "process_professor env p w = (r, w1)"
    by (cases "process_professor env p w")
  obtain evs where evs: "trace w1 = trace w @ evs"
    using process_professor_trace [of env p w] step by auto
  show ?case
  proof (cases r)
    case (Inl e)
    with step evs show ?thesis by simp
  next
    case (Inr u)
    obtain evs' where "trace (snd (professors_loop env ps w1)) = trace w1 @ evs'"
      using Cons.IH [of w1] by auto
    with step evs Inr show ?thesis by simp
  qed
qed

lemma professors_loop_attempts_head:
  "RequestsGet (rmp_link q) \<in> set (trace (snd (professors_loop env (q # rest) w)))"
proof -
  obtain r w1 where step: "process_professor env q w = (r, w1)"
    by (cases "process_professor env q w")
  obtain evs where evs: "trace w1 =
      trace w @ Print (Fetching_ratings (name q)) # RequestsGet (rmp_link q) # evs"
    using process_professor_trace [of env q w] step by auto
  obtain evs' where "trace (snd (professors_loop env rest w1)) = trace w1 @ evs'"
    using professors_loop_trace [of env rest w1] by auto
  with step evs show ?thesis
    by (cases r) auto
qed

lemma store_professor_fault:
  assumes "store_fault env (store_calls w) = Some e \<or>
           (store_fault env (store_calls w) = None \<and>
            store_fault env (Suc (store_calls w)) = Some e)"
  shows "table (store_professor env p d w) = table w \<and>
         last (trace (store_professor env p d w)) = Print (Error_storing (name p) (str e))"
  using assms
  by (auto simp: store_professor_def select_eq_name_def update_eq_name_def insert_row_def
      execute_def Let_def)

lemma professors_loop_append:
  "professors_loop env (xs @ ys) w =
     (case professors_loop env xs w of
        (Inl e, w1) \<Rightarrow> (Inl e, w1)
      | (Inr u, w1) \<Rightarrow> professors_loop env ys w1)"
  by (induction xs arbitrary: w) (auto split: prod.splits sum.splits)

lemma fetch_failure:
  assumes "http_get env (http_calls w) (rmp_link p) = Inl e \<or>
           (\<exists>soup. http_get env (http_calls w) (rmp_link p) = Inr soup \<and>
                   extract_distribution env soup = Inl e)"
  shows "professors_loop env (p # rest) w = (Inl e, fetched p w)"
proof -
  have "fst (fetch_rating_distributions env (rmp_link p) w) = Inl e"
    using assms by (auto simp: fetch_result)
  then show ?thesis
    by (simp add: process_professor_cases)
qed

text \<open>
  Claim C1, as the code has it. The \<^verbatim>\<open>try\<close> block of lines 144-157 encloses the calls to
  the table and nothing else. First part: when the ratings of a professor were fetched
  and a call to the table raises (the existence query, or the update or insert after
  it), the pass ends normally, its last printed line is the error line with the
  exception's text, the table is as before the pass, and the loop goes on to the next
  professor, whose profile is requested. Second part: when the request of line 88
  raises, or the extraction of lines 91-104 raises on the page received, the exception
  leaves the loop and \<^verbatim>\<open>main\<close> at once: the run ends with that exception, right after
  the request was sent, with no line printed about it and no later professor attempted.
\<close>

theorem store_failure_is_caught_fetch_failure_ends_the_run:
  "(fst (fetch_rating_distributions env (rmp_link p) w) = Inr (Some d) \<and>
    (store_fault env (store_calls w) = Some e \<or>
     (store_fault env (store_calls w) = None \<and>
      store_fault env (Suc (store_calls w)) = Some e)) \<longrightarrow>
      fst (process_professor env p w) = Inr () \<and>
      last (trace (snd (process_professor env p w))) = Print (Error_storing (name p) (str e)) \<and>
      table (snd (process_professor env p w)) = table w \<and>
      professors_loop env (p # q # rest) w =
        professors_loop env (q # rest) (snd (process_professor env p w)) \<and>
      RequestsGet (rmp_link q) \<in> set (trace (snd (professors_loop env (p # q # rest) w)))) \<and>
   (test_supabase_connection env w0 = (True, w1) \<and>
    scrape_professor_links env BASE_URL w1 = Some (Inr (pre @ p # rest), w2) \<and>
    professors_loop env pre w2 = (Inr (), w) \<and>
    (http_get env (http_calls w) (rmp_link p) = Inl x \<or>
     (\<exists>soup. http_get env (http_calls w) (rmp_link p) = Inr soup \<and>
             extract_distribution env soup = Inl x)) \<longrightarrow>
      professors_loop env (p # rest) w = (Inl x, fetched p w) \<and>
      trace (fetched p w) =
        trace w @ [Print (Fetching_ratings (name p)), RequestsGet (rmp_link p)] \<and>
      main env w0 = Some (Inl x, fetched p w))"
proof (intro conjI impI)
  assume a: "fst (fetch_rating_distributions env (rmp_link p) w) = Inr (Some d) \<and>
    (store_fault env (store_calls w) = Some e \<or>
     (store_fault env (store_calls w) = None \<and>
      store_fault env (Suc (store_calls w)) = Some e))"
  have filled: "d \<noteq> []"
    using a extract_distribution_not_empty [of env _ d]
    by (auto simp: fetch_result split: sum.splits)
  have step: "process_professor env p w =
      (Inr (), store_professor env p (build_professor_data p d) (fetched p w))"
    using a filled by (simp add: process_professor_cases)
  have fault: "store_fault env (store_calls (fetched p w)) = Some e \<or>
      (store_fault env (store_calls (fetched p w)) = None \<and>
       store_fault env (Suc (store_calls (fetched p w))) = Some e)"
    using a by simp
  note caught = store_professor_fault [OF fault, of p "build_professor_data p d"]
  show "fst (process_professor env p w) = Inr ()"
    by (simp add: step)
  show "last (trace (snd (process_professor env p w))) = Print (Error_storing (name p) (str e))"
    using caught by (simp add: step)
  show "table (snd (process_professor env p w)) = table w"
    using caught by (simp add: step)
  show "professors_loop env (p # q # rest) w =
      professors_loop env (q # rest) (snd (process_professor env p w))"
    by (simp add: step)
  then show "RequestsGet (rmp_link q) \<in> set (trace (snd (professors_loop env (p # q # rest) w)))"
    using professors_loop_attempts_head [of q env rest "snd (process_professor env p w)"]
    by simp
next
  assume b: "test_supabase_connection env w0 = (True, w1) \<and>
    scrape_professor_links env BASE_URL w1 = Some (Inr (pre @ p # rest), w2) \<and>
    professors_loop env pre w2 = (Inr (), w) \<and>
    (http_get env (http_calls w) (rmp_link p) = Inl x \<or>
     (\<exists>soup. http_get env (http_calls w) (rmp_link p) = Inr soup \<and>
             extract_distribution env soup = Inl x))"
  then have raised: "professors_loop env (p # rest) w = (Inl x, fetched p w)"
    by (intro fetch_failure) blast
  then show "professors_loop env (p # rest) w = (Inl x, fetched p w)" .
  show "trace (fetched p w) =
      trace w @ [Print (Fetching_ratings (name p)), RequestsGet (rmp_link p)]"
    by simp
  have "professors_loop env (pre @ p # rest) w2 = (Inl x, fetched p w)"
    using b raised by (simp add: professors_loop_append)
  with b show "main env w0 = Some (Inl x, fetched p w)"
    by (simp add: main_def)
qed


lemma script_b_found: "find_script [Some script_b] = Some script_b"
  by (simp add: script_b_def marker_at_def)

lemma script_b_group: "relay_store_search script_b =
    Some ''{\"d\":{\"__typename\":\"ratingsDistribution\",\"r5\":4}}''"
  by (simp add: script_b_def relay_store_at_def py_isspace_def)

lemma ada_1_data:
  assumes "http_get env = ex_http_get" and "json_loads env = ex_json_loads"
  shows "fst (fetch_rating_distributions env (rmp_link ada_1) w) =
           Inr (Some [(''__typename'', JStr ''ratingsDistribution''), (''r1'', JInt 3)])"
  by (simp add: assms fetch_result ex_http_get_def ada_1_def extract_distribution_def
      script_a_found script_a_group ex_json_loads_def del: find_script.simps)

lemma ada_7_data:
  assumes "http_get env = ex_http_get" and "json_loads env = ex_json_loads"
  shows "fst (fetch_rating_distributions env (rmp_link ada_7) w) =
           Inr (Some [(''__typename'', JStr ''ratingsDistribution''), (''r5'', JInt 4)])"
  by (simp add: assms fetch_result ex_http_get_def ada_7_def extract_distribution_def
      script_b_found script_b_group ex_json_loads_def del: find_script.simps)

lemma bob_2_data:
  assumes "http_get env = ex_http_get"
  shows "fst (fetch_rating_distributions env (rmp_link bob_2) w) = Inr None"
  by (simp add: assms fetch_result ex_http_get_def bob_2_def extract_distribution_def
      marker_at_def)

lemma env0_fields:
  "http_get env0 = ex_http_get" "json_loads env0 = ex_json_loads"
  "store_fault env0 = (\<lambda>i. None)" "driver_get_fault env0 = None"
  "cookie_popup env0 = Some (Exn WebDriverException ''timeout'')" "ad_popup env0 = None"
  "page_cards env0 = ex_cards"
  "show_more env0 = (\<lambda>i. if i < 1 then None else Some (Exn NoSuchElementException ''no such element''))"
  by (simp_all add: env0_def)

lemma ex_professors: "cards_loop ex_cards [] = [ada_1, bob_2, ada_7]"
  by (simp add: ex_cards_def card_professor_def format_href_def ada_1_def bob_2_def ada_7_def)

lemma ex_rows:
  "build_professor_data ada_1 [(''__typename'', JStr ''ratingsDistribution''), (''r1'', JInt 3)] = ada_1_row"
  "build_professor_data ada_7 [(''__typename'', JStr ''ratingsDistribution''), (''r5'', JInt 4)] = ada_7_row"
  by (simp_all add: build_professor_data_def dict_get_def ada_1_def ada_7_def ada_1_row_def ada_7_row_def)

lemma ex_names: "name ada_1 = ''Ada''" "name bob_2 = ''Bob''" "name ada_7 = ''Ada''"
  "name ada_1_row = ''Ada''" "name ada_7_row = ''Ada''"
  "rmp_link ada_1 = ''https://www.ratemyprofessors.com/professor/1''"
  "rmp_link bob_2 = ''https://www.ratemyprofessors.com/professor/2''"
  "rmp_link ada_7 = ''https://www.ratemyprofessors.com/professor/7''"
  by (simp_all add: ada_1_def bob_2_def ada_7_def ada_1_row_def ada_7_row_def)

lemma process_professor_env0:
  "process_professor env0 ada_1 w =
     (Inr (), store_professor env0 ada_1 ada_1_row (fetched ada_1 w))"
  "process_professor env0 ada_7 w =
     (Inr (), store_professor env0 ada_7 ada_7_row (fetched ada_7 w))"
  "process_professor env0 bob_2 w =
     (Inr (), emit (Print (No_rating_distributions ''Bob'')) (fetched bob_2 w))"
  by (simp_all add: process_professor_cases ada_1_data ada_7_data bob_2_data env0_fields
      ex_rows ex_names(1-3))

theorem store_failure_is_caught_fetch_failure_ends_the_run_witness:
  "fst (process_professor env_store_down ada_1 (idle [])) = Inr () \<and>
   last (trace (snd (process_professor env_store_down ada_1 (idle [])))) =
     Print (Error_storing ''Ada'' ''timed out'') \<and>
   table (snd (process_professor env_store_down ada_1 (idle []))) = [] \<and>
   RequestsGet ''https://www.ratemyprofessors.com/professor/2''
     \<in> set (trace (snd (professors_loop env_store_down [ada_1, bob_2] (idle [])))) \<and>
   main env_broken_first (start []) =
     Some (Inl (Exn JSONDecodeError ''Expecting property name enclosed in double quotes''),
           \<lparr>table = [], store_calls = 1, http_calls = 1,
            trace = [DriverChrome, DriverMaximize, StoreProbe, Print Connected,
                     Print (Sample_data []), Print Starting_link_scraping,
                     DriverSetPageLoadTimeout 300, DriverGet BASE_URL,
                     Print (No_cookie_popup ''timeout''), Print Clicked_show_more,
                     Print No_more_show_more, Print (Scraped 2),
                     Print (Fetching_ratings ''Cy''),
                     RequestsGet ''https://www.ratemyprofessors.com/professor/3'']\<rparr>)"
proof -
  let ?e = "Exn APIError ''timed out''"
  let ?x = "Exn JSONDecodeError ''Expecting property name enclosed in double quotes''"
  let ?w1 = "\<lparr>table = [], store_calls = 1, http_calls = 0,
      trace = [DriverChrome, DriverMaximize, StoreProbe, Print Connected,
               Print (Sample_data [])]\<rparr>"
  let ?w2 = "\<lparr>table = [], store_calls = 1, http_calls = 0,
      trace = [DriverChrome, DriverMaximize, StoreProbe, Print Connected,
               Print (Sample_data []), Print Starting_link_scraping,
               DriverSetPageLoadTimeout 300, DriverGet BASE_URL,
               Print (No_cookie_popup ''timeout''), Print Clicked_show_more,
               Print No_more_show_more, Print (Scraped 2)]\<rparr>"
  have data: "fst (fetch_rating_distributions env_store_down (rmp_link ada_1) (idle [])) =
      Inr (Some [(''__typename'', JStr ''ratingsDistribution''), (''r1'', JInt 3)])"
    by (rule ada_1_data) (simp_all add: env_store_down_def env0_def)
  have fault: "store_fault env_store_down (store_calls (idle [])) = Some ?e \<or>
      (store_fault env_store_down (store_calls (idle [])) = None \<and>
       store_fault env_store_down (Suc (store_calls (idle []))) = Some ?e)"
    by (simp add: env_store_down_def idle_def)
  from store_failure_is_caught_fetch_failure_ends_the_run
         [of env_store_down ada_1 "idle []" _ ?e bob_2 "[]"] data fault
  have "fst (process_professor env_store_down ada_1 (idle [])) = Inr () \<and>
      last (trace (snd (process_professor env_store_down ada_1 (idle [])))) =
        Print (Error_storing (name ada_1) (str ?e)) \<and>
      table (snd (process_professor env_store_down ada_1 (idle []))) = table (idle []) \<and>
      RequestsGet (rmp_link bob_2)
        \<in> set (trace (snd (professors_loop env_store_down [ada_1, bob_2] (idle []))))"
    by blast
  moreover have "name ada_1 = ''Ada''" "str ?e = ''timed out''"
    "table (idle []) = []" "rmp_link bob_2 = ''https://www.ratemyprofessors.com/professor/2''"
    by (simp_all add: ada_1_def bob_2_def idle_def)
  ultimately have caught:
    "fst (process_professor env_store_down ada_1 (idle [])) = Inr () \<and>
     last (trace (snd (process_professor env_store_down ada_1 (idle [])))) =
       Print (Error_storing ''Ada'' ''timed out'') \<and>
     table (snd (process_professor env_store_down ada_1 (idle []))) = [] \<and>
     RequestsGet ''https://www.ratemyprofessors.com/professor/2''
       \<in> set (trace (snd (professors_loop env_store_down [ada_1, bob_2] (idle []))))"
    by (simp only:)
  have probe: "test_supabase_connection env_broken_first (start []) = (True, ?w1)"
    by (simp add: test_supabase_connection_def select_limit_1_def execute_def start_def emit_def
        env_broken_first_def env0_def)
  have scrape: "scrape_professor_links env_broken_first BASE_URL ?w1 =
      Some (Inr ([] @ cy_3 # [ada_1]), ?w2)"
    by (simp add: scrape_professor_links_def env_broken_first_def env0_def emit_def
        show_more_loop.simps card_professor_def format_href_def cy_3_def ada_1_def)
  have reached: "professors_loop env_broken_first [] ?w2 = (Inr (), ?w2)"
    by simp
  have page: "http_get env_broken_first (http_calls ?w2) (rmp_link cy_3) = Inr [Some script_broken]"
    by (simp add: env_broken_first_def env0_def ex_http_get_def cy_3_def)
  have parse: "extract_distribution env_broken_first [Some script_broken] = Inl ?x"
    by (simp add: extract_distribution_def script_broken_found script_broken_group
        env_broken_first_def env0_def ex_json_loads_def del: find_script.simps)
  from store_failure_is_caught_fetch_failure_ends_the_run
         [of env_broken_first cy_3 ?w2 _ _ _ "[ada_1]" "start []" ?w1 "[]" ?w2 ?x]
       probe scrape reached page parse
  have "main env_broken_first (start []) = Some (Inl ?x, fetched cy_3 ?w2)"
    by blast
  moreover have "fetched cy_3 ?w2 =
      \<lparr>table = [], store_calls = 1, http_calls = 1,
       trace = [DriverChrome, DriverMaximize, StoreProbe, Print Connected,
                Print (Sample_data []), Print Starting_link_scraping,
                DriverSetPageLoadTimeout 300, DriverGet BASE_URL,
                Print (No_cookie_popup ''timeout''), Print Clicked_show_more,
                Print No_more_show_more, Print (Scraped 2),
                Print (Fetching_ratings ''Cy''),
                RequestsGet ''https://www.ratemyprofessors.com/professor/3'']\<rparr>"
    by (simp add: fetched_def emit_def cy_3_def)
  ultimately have "main env_broken_first (start []) =
      Some (Inl ?x,
        \<lparr>table = [], store_calls = 1, http_calls = 1,
         trace = [DriverChrome, DriverMaximize, StoreProbe, Print Connected,
                  Print (Sample_data []), Print Starting_link_scraping,
                  DriverSetPageLoadTimeout 300, DriverGet BASE_URL,
                  Print (No_cookie_popup ''timeout''), Print Clicked_show_more,
                  Print No_more_show_more, Print (Scraped 2),
                  Print (Fetching_ratings ''Cy''),
                  RequestsGet ''https://www.ratemyprofessors.com/professor/3'']\<rparr>)"
    by (simp only:)
  with caught show ?thesis
    by blast
qed

text \<open>
  The call of line 132 is not enclosed. Here the request for the first professor raises:
  the exception leaves the loop, nothing is printed about it, and the profile of the
  second professor is never requested.
\<close>

theorem fetch_failure_ends_the_loop_counterexample:
  "professors_loop env0 [nobody, ada_7] (idle []) =
     (Inl (Exn RequestException ''Failed to resolve host''),
      \<lparr>table = [], store_calls = 0, http_calls = 1,
       trace = [Print (Fetching_ratings ''Unknown''),
                RequestsGet ''https://www.ratemyprofessors.comNone'']\<rparr>) \<and>
   RequestsGet (rmp_link ada_7) \<notin> set (trace (snd (professors_loop env0 [nobody, ada_7] (idle []))))"
proof -
  have page: "http_get env0 0 ''https://www.ratemyprofessors.comNone'' =
      Inl (Exn RequestException ''Failed to resolve host'')"
    by (simp add: env0_def ex_http_get_def)
  have run: "professors_loop env0 [nobody, ada_7] (idle []) =
     (Inl (Exn RequestException ''Failed to resolve host''),
      \<lparr>table = [], store_calls = 0, http_calls = 1,
       trace = [Print (Fetching_ratings ''Unknown''),
                RequestsGet ''https://www.ratemyprofessors.comNone'']\<rparr>)"
    by (simp add: process_professor_def fetch_rating_distributions_def page nobody_def
        idle_def emit_def)
  show ?thesis
    unfolding run by (simp add: ada_7_def)
qed


section \<open>The release of the browser session\<close>

lemma show_more_loop_only_prints:
  assumes "show_more_loop env i w = Some y"
  shows "table (snd y) = table w \<and> store_calls (snd y) = store_calls w \<and>
         http_calls (snd y) = http_calls w \<and>
         (\<exists>evs. trace (snd y) = trace w @ evs \<and> set evs \<subseteq> range Print)"
proof (rule show_more_loop.raw_induct
    [where P = "\<lambda>env i w y. table (snd y) = table w \<and> store_calls (snd y) = store_calls w \<and>
         http_calls (snd y) = http_calls w \<and>
         (\<exists>evs. trace (snd y) = trace w @ evs \<and> set evs \<subseteq> range Print)", OF _ assms],
    goal_cases)
  case (1 loop env i w y)
  show ?case
  proof (cases "show_more env i")
    case None
    with 1(2) have "loop env (Suc i) (emit (Print Clicked_show_more) w) = Some y"
      by simp
    from 1(1) [OF this] show ?thesis
      by auto
  next
    case (Some e)
    show ?thesis
    proof (cases "exn_class e = ElementClickInterceptedException")
      case True
      with Some 1(2) have "loop env (Suc i) (emit (Print Element_blocked) w) = Some y"
        by simp
      from 1(1) [OF this] show ?thesis
        by auto
    next
      case False
      with Some 1(2) show ?thesis
        by (auto split: if_splits)
    qed
  qed
qed

lemma scrape_professor_links_world:
  assumes "scrape_professor_links env url w = Some (r, w')"
  shows "table w' = table w \<and> store_calls w' = store_calls w \<and> http_calls w' = http_calls w \<and>
         (\<exists>evs. trace w' = trace w @ evs \<and>
                set evs \<subseteq> range Print \<union> range DriverGet \<union> range DriverSetPageLoadTimeout)"
proof (cases "driver_get_fault env")
  case (Some e)
  with assms show ?thesis
    by (auto simp: scrape_professor_links_def)
next
  case None
  define w1 where "w1 = emit (DriverGet url)
     (emit (DriverSetPageLoadTimeout 300) (emit (Print Starting_link_scraping) w))"
  define w2 where "w2 = (case cookie_popup env of
       Some e \<Rightarrow> emit (Print (No_cookie_popup (str e))) w1 | None \<Rightarrow> w1)"
  define w3 where "w3 = (case ad_popup env of
       Some e \<Rightarrow> emit (Print Ad_popup_not_found) w2 | None \<Rightarrow> w2)"
  have w3: "table w3 = table w \<and> store_calls w3 = store_calls w \<and> http_calls w3 = http_calls w \<and>
      (\<exists>evs. trace w3 = trace w @ evs \<and>
         set evs \<subseteq> range Print \<union> range DriverGet \<union> range DriverSetPageLoadTimeout)"
    by (auto simp: w3_def w2_def w1_def split: option.splits)
  obtain y where loop: "show_more_loop env 0 w3 = Some y"
    using assms None
    by (auto simp: scrape_professor_links_def Let_def w1_def w2_def w3_def split: option.splits)
  have w': "w' = snd y \<or> (\<exists>m. w' = emit (Print m) (snd y))"
    using assms None loop
    by (auto simp: scrape_professor_links_def Let_def w1_def w2_def w3_def
        split: option.splits sum.splits prod.splits)
  from show_more_loop_only_prints [OF loop] w3 w' show ?thesis
    by auto
qed


lemma show_more_loop_returns:
  assumes "show_more env (i + n) = Some e"
    and "exn_class e \<noteq> ElementClickInterceptedException"
  shows "\<exists>y. show_more_loop env i w = Some y"
  using assms
proof (induction n arbitrary: i w)
  case 0
  then show ?case
    by (subst show_more_loop.simps) simp
next
  case (Suc n)
  have later: "show_more env (Suc i + n) = Some e"
    using Suc.prems(1) by simp
  show ?case
  proof (cases "show_more env i")
    case None
    with Suc.IH [OF later Suc.prems(2)] show ?thesis
      by (subst show_more_loop.simps) simp
  next
    case (Some e')
    with Suc.IH [OF later Suc.prems(2)] show ?thesis
      by (subst show_more_loop.simps) simp
  qed
qed

lemma store_professor_no_quit:
  "DriverQuit \<in> set (trace (store_professor env p d w)) \<Longrightarrow> DriverQuit \<in> set (trace w)"
  by (auto simp: store_professor_def select_eq_name_def update_eq_name_def insert_row_def
      execute_def Let_def split: option.splits if_splits)

lemma process_professor_no_quit:
  "DriverQuit \<in> set (trace (snd (process_professor env p w))) \<Longrightarrow> DriverQuit \<in> set (trace w)"
  by (auto simp: process_professor_cases dest: store_professor_no_quit
      split: sum.splits option.splits if_splits)

lemma professors_loop_no_quit:
  "DriverQuit \<in> set (trace (snd (professors_loop env ps w))) \<Longrightarrow> DriverQuit \<in> set (trace w)"
proof (induction ps arbitrary: w)
  case Nil
  then show ?case by simp
next
  case (Cons p ps)
  obtain r w1 where step: "process_professor env p w = (r, w1)"
    by (cases "process_professor env p w")
  have before: "DriverQuit \<in> set (trace w1) \<Longrightarrow> DriverQuit \<in> set (trace w)"
    using process_professor_no_quit [of env p w] step by simp
  show ?case
  proof (cases r)
    case (Inl e)
    with Cons.prems step before show ?thesis by simp
  next
    case (Inr u)
    with Cons.prems step have "DriverQuit \<in> set (trace (snd (professors_loop env ps w1)))"
      by simp
    then show ?thesis
      using Cons.IH before by blast
  qed
qed

lemma test_supabase_connection_world:
  "test_supabase_connection env w = (ok, w') \<Longrightarrow>
   table w' = table w \<and> store_calls w' = Suc (store_calls w) \<and> http_calls w' = http_calls w \<and>
   (ok \<longleftrightarrow> store_fault env (store_calls w) = None) \<and>
   (\<exists>evs. trace w' = trace w @ StoreProbe # evs \<and> set evs \<subseteq> range Print)"
  by (auto simp: test_supabase_connection_def select_limit_1_def execute_def Let_def
      split: option.splits)

lemma main_no_quit:
  assumes "main env w = Some (r, w')" and "DriverQuit \<in> set (trace w')"
  shows "DriverQuit \<in> set (trace w)"
proof -
  obtain ok w1 where probe: "test_supabase_connection env w = (ok, w1)"
    by (cases "test_supabase_connection env w")
  have w1: "DriverQuit \<in> set (trace w1) \<Longrightarrow> DriverQuit \<in> set (trace w)"
    using test_supabase_connection_world [OF probe] by auto
  show ?thesis
  proof (cases ok)
    case False
    with assms probe w1 show ?thesis
      by (auto simp: main_def)
  next
    case True
    then obtain r2 w2 where scrape: "scrape_professor_links env BASE_URL w1 = Some (r2, w2)"
      using assms(1) probe by (auto simp: main_def split: option.splits)
    have w2: "DriverQuit \<in> set (trace w2) \<Longrightarrow> DriverQuit \<in> set (trace w1)"
      using scrape_professor_links_world [OF scrape] by auto
    show ?thesis
    proof (cases r2)
      case (Inl e)
      with assms probe True scrape w1 w2 show ?thesis
        by (auto simp: main_def)
    next
      case (Inr ps)
      have "DriverQuit \<in> set (trace (snd (professors_loop env ps w2)))"
        using assms probe True scrape Inr
        by (auto simp: main_def split: prod.splits sum.splits)
      then show ?thesis
        using professors_loop_no_quit w1 w2 by blast
    qed
  qed
qed

text \<open>
  Claim C8, as the code has it. \<^verbatim>\<open>driver.quit()\<close> is the statement after \<^verbatim>\<open>main()\<close>, so it
  runs exactly when \<^verbatim>\<open>main\<close> returns. The outcome of the script is the outcome of
  \<^verbatim>\<open>main\<close>; when \<^verbatim>\<open>main\<close> returns normally (after a complete run, or after a failed
  probe), the release of the session is the last thing the script does; when an
  exception leaves \<^verbatim>\<open>main\<close>, the session is not released.
\<close>

theorem driver_quit_follows_a_normal_return_only:
  assumes "script env t = Some (r, w)"
  shows "(\<exists>w1. main env (start t) = Some (r, w1)) \<and>
         (r = Inr () \<longrightarrow> last (trace w) = DriverQuit) \<and>
         (\<forall>e. r = Inl e \<longrightarrow> DriverQuit \<notin> set (trace w))"
proof -
  obtain r1 w1 where m: "main env (start t) = Some (r1, w1)"
    using assms by (auto simp: script_def split: option.splits)
  have fresh: "DriverQuit \<notin> set (trace w1)"
    using main_no_quit [OF m] by (auto simp: start_def)
  show ?thesis
  proof (cases r1)
    case (Inl e)
    with assms m fresh show ?thesis
      by (auto simp: script_def)
  next
    case (Inr u)
    with assms m show ?thesis
      by (auto simp: script_def)
  qed
qed

text \<open>
  A page load that times out: \<^verbatim>\<open>driver.get\<close> raises inside \<open>scrape_professor_links\<close>,
  nothing catches the exception, and the script ends with the session still open.
\<close>

theorem page_load_timeout_skips_driver_quit_counterexample:
  "script env_page_load_timeout [] =
     Some (Inl (Exn WebDriverException ''timeout: page load''),
           \<lparr>table = [], store_calls = 1, http_calls = 0,
            trace = [DriverChrome, DriverMaximize, StoreProbe, Print Connected,
                     Print (Sample_data []), Print Starting_link_scraping,
                     DriverSetPageLoadTimeout 300, DriverGet BASE_URL]\<rparr>) \<and>
   DriverQuit \<notin> set [DriverChrome, DriverMaximize, StoreProbe, Print Connected,
                     Print (Sample_data []), Print Starting_link_scraping,
                     DriverSetPageLoadTimeout 300, DriverGet BASE_URL]"
  by (simp add: script_def main_def test_supabase_connection_def select_limit_1_def execute_def
      start_def emit_def scrape_professor_links_def env_page_load_timeout_def env0_def)

theorem driver_quit_follows_a_normal_return_only_witness:
  "script (env0\<lparr>page_cards := []\<rparr>) [] =
     Some (Inr (),
           \<lparr>table = [], store_calls = 1, http_calls = 0,
            trace = [DriverChrome, DriverMaximize, StoreProbe, Print Connected,
                     Print (Sample_data []), Print Starting_link_scraping,
                     DriverSetPageLoadTimeout 300, DriverGet BASE_URL,
                     Print (No_cookie_popup ''timeout''), Print Clicked_show_more,
                     Print No_more_show_more, Print (Scraped 0), Print Completed,
                     DriverQuit]\<rparr>) \<and>
   last (trace \<lparr>table = [], store_calls = 1, http_calls = 0,
            trace = [DriverChrome, DriverMaximize, StoreProbe, Print Connected,
                     Print (Sample_data []), Print Starting_link_scraping,
                     DriverSetPageLoadTimeout 300, DriverGet BASE_URL,
                     Print (No_cookie_popup ''timeout''), Print Clicked_show_more,
                     Print No_more_show_more, Print (Scraped 0), Print Completed,
                     DriverQuit]\<rparr>) = DriverQuit \<and>
   DriverQuit \<notin> set (trace \<lparr>table = [], store_calls = 1, http_calls = 0,
            trace = [DriverChrome, DriverMaximize, StoreProbe, Print Connected,
                     Print (Sample_data []), Print Starting_link_scraping,
                     DriverSetPageLoadTimeout 300, DriverGet BASE_URL]\<rparr>)"
proof -
  let ?quiet = "env0\<lparr>page_cards := []\<rparr>"
  let ?done = "\<lparr>table = [], store_calls = 1, http_calls = 0,
            trace = [DriverChrome, DriverMaximize, StoreProbe, Print Connected,
                     Print (Sample_data []), Print Starting_link_scraping,
                     DriverSetPageLoadTimeout 300, DriverGet BASE_URL,
                     Print (No_cookie_popup ''timeout''), Print Clicked_show_more,
                     Print No_more_show_more, Print (Scraped 0), Print Completed,
                     DriverQuit]\<rparr>"
  let ?cut = "\<lparr>table = [], store_calls = 1, http_calls = 0,
            trace = [DriverChrome, DriverMaximize, StoreProbe, Print Connected,
                     Print (Sample_data []), Print Starting_link_scraping,
                     DriverSetPageLoadTimeout 300, DriverGet BASE_URL]\<rparr>"
  have normal: "script ?quiet [] = Some (Inr (), ?done)"
    by (simp add: script_def main_def test_supabase_connection_def select_limit_1_def execute_def
        start_def emit_def scrape_professor_links_def env0_def show_more_loop.simps)
  have raised: "script env_page_load_timeout [] =
      Some (Inl (Exn WebDriverException ''timeout: page load''), ?cut)"
    by (simp add: script_def main_def test_supabase_connection_def select_limit_1_def execute_def
        start_def emit_def scrape_professor_links_def env_page_load_timeout_def env0_def)
  from driver_quit_follows_a_normal_return_only [OF normal]
  have quit: "last (trace ?done) = DriverQuit"
    by blast
  from driver_quit_follows_a_normal_return_only [OF raised]
  have "DriverQuit \<notin> set (trace ?cut)"
    by blast
  with normal quit show ?thesis
    by blast
qed



section \<open>Last write wins\<close>

lemma rows_named_append [simp]: "rows_named n (t @ t') = rows_named n t @ rows_named n t'"
  by (simp add: rows_named_def)

lemma store_professor_table:
  "table (store_professor env p d w) = table w \<or>
   (rows_named (name p) (table w) \<noteq> [] \<and>
    table (store_professor env p d w) = map (\<lambda>r. if name r = name p then d else r) (table w)) \<or>
   (rows_named (name p) (table w) = [] \<and> table (store_professor env p d w) = table w @ [d])"
proof (cases "store_fault env (store_calls w)")
  case (Some e)
  then show ?thesis
    by (simp add: store_professor_def select_eq_name_def execute_fault)
next
  case None
  show ?thesis
  proof (cases "store_fault env (Suc (store_calls w))")
    case (Some e)
    with None show ?thesis
      by (simp add: store_professor_def select_eq_name_def update_eq_name_def insert_row_def
          execute_ok execute_fault)
  next
    case second: None
    with None show ?thesis
      by (simp add: store_professor_def select_eq_name_def update_eq_name_def insert_row_def
          execute_ok set_columns_all rows_named_def)
  qed
qed

lemma store_professor_other_rows:
  assumes "m \<noteq> name p"
  shows "rows_named m (table (store_professor env p (build_professor_data p d) w)) =
         rows_named m (table w)"
proof -
  have "rows_named m [build_professor_data p d] = []"
    using assms by (simp add: rows_named_def)
  then show ?thesis
    using store_professor_table [of env p "build_professor_data p d" w] assms
    by (auto simp: rows_named_overwrite_other)
qed

lemma process_professor_other_rows:
  assumes "m \<noteq> name p"
  shows "rows_named m (table (snd (process_professor env p w))) = rows_named m (table w)"
  using assms
  by (auto simp: process_professor_cases store_professor_other_rows
      split: sum.splits option.splits)

lemma professors_loop_other_rows:
  assumes "\<forall>q \<in> set ps. name q \<noteq> m"
  shows "rows_named m (table (snd (professors_loop env ps w))) = rows_named m (table w)"
  using assms
proof (induction ps arbitrary: w)
  case Nil
  show ?case by simp
next
  case (Cons p ps)
  obtain r w1 where step: "process_professor env p w = (r, w1)"
    by (cases "process_professor env p w")
  have same: "rows_named m (table w1) = rows_named m (table w)"
    using process_professor_other_rows [of m p env w] Cons.prems step by auto
  show ?case
  proof (cases r)
    case (Inl e)
    with step same show ?thesis by simp
  next
    case (Inr u)
    with step same Cons.IH [of w1] Cons.prems show ?thesis by simp
  qed
qed

lemma store_professor_written:
  assumes "store_fault env (store_calls w) = None"
    and "store_fault env (Suc (store_calls w)) = None"
  shows "set (rows_named (name p) (table (store_professor env p (build_professor_data p d) w))) =
         {build_professor_data p d}"
proof (cases "rows_named (name p) (table w) = []")
  case True
  then have "filter (\<lambda>r. name r = name p) (table w) = []"
    by (simp add: rows_named_def)
  with assms have "table (store_professor env p (build_professor_data p d) w) =
      table w @ [build_professor_data p d]"
    by (simp add: store_professor_def select_eq_name_def insert_row_def execute_ok)
  with True show ?thesis
    by (simp add: rows_named_def)
next
  case False
  then have "filter (\<lambda>r. name r = name p) (table w) \<noteq> []"
    by (simp add: rows_named_def)
  with assms have "table (store_professor env p (build_professor_data p d) w) =
      map (\<lambda>r. if name r = name p then build_professor_data p d else r) (table w)"
    by (simp add: store_professor_def select_eq_name_def update_eq_name_def execute_ok
        set_columns_all)
  moreover have "set (map (\<lambda>r. build_professor_data p d) (rows_named (name p) (table w))) =
      {build_professor_data p d}"
    using False by (cases "rows_named (name p) (table w)") auto
  ultimately show ?thesis
    by (simp add: rows_named_overwrite)
qed

lemma professors_loop_cut:
  assumes "rest = [] \<or> (\<exists>x. fst (professors_loop env mid w) = Inl x)"
  shows "snd (professors_loop env (mid @ rest) w) = snd (professors_loop env mid w)"
  using assms
  by (auto simp: professors_loop_append split: prod.splits sum.splits)

text \<open>
  Claim C4, as the code has it. Let \<open>p\<close> be the last professor of its name that the
  loop processes: the professors processed after it (\<open>mid\<close>) have other names, and the
  run either ends with them or is cut off among them by an exception, so that what
  follows in the list (\<open>rest\<close>) is never reached. If rating data was found for \<open>p\<close> and
  the table answered its existence query and its write, then at the end of the run the
  table holds at least one row of that name, and every row of that name is the record
  built from \<open>p\<close>: link and all five counts are those of the last occurrence, whatever
  earlier occurrences of the name had written.
\<close>

theorem last_occurrence_is_what_the_table_holds:
  assumes "professors_loop env pre w = (Inr (), w1)"
    and "fst (fetch_rating_distributions env (rmp_link p) w1) = Inr (Some d)"
    and "store_fault env (store_calls w1) = None"
    and "store_fault env (Suc (store_calls w1)) = None"
    and "\<forall>q \<in> set mid. name q \<noteq> name p"
    and "rest = [] \<or>
         (\<exists>x. fst (professors_loop env mid (snd (process_professor env p w1))) = Inl x)"
  shows "set (rows_named (name p)
               (table (snd (professors_loop env (pre @ p # mid @ rest) w)))) =
         {build_professor_data p d}"
proof -
  have filled: "d \<noteq> []"
    using assms(2) extract_distribution_not_empty [of env _ d]
    by (auto simp: fetch_result split: sum.splits)
  let ?w2 = "store_professor env p (build_professor_data p d) (fetched p w1)"
  have step: "process_professor env p w1 = (Inr (), ?w2)"
    using assms(2) filled by (simp add: process_professor_cases)
  have written: "set (rows_named (name p) (table ?w2)) = {build_professor_data p d}"
    using assms(3,4) by (intro store_professor_written) simp_all
  have "professors_loop env (pre @ p # mid @ rest) w = professors_loop env (mid @ rest) ?w2"
    using assms(1) step by (simp add: professors_loop_append)
  moreover have "snd (professors_loop env (mid @ rest) ?w2) = snd (professors_loop env mid ?w2)"
    using assms(6) by (intro professors_loop_cut) (simp add: step)
  ultimately show ?thesis
    using professors_loop_other_rows [OF assms(5), of env ?w2] written by simp
qed

theorem last_occurrence_is_what_the_table_holds_witness:
  "set (rows_named ''Ada''
         (table (snd (professors_loop env0 [ada_1, bob_2, ada_7, bob_2] (idle []))))) =
     {ada_7_row} \<and>
   set (rows_named ''Ada''
         (table (snd (professors_loop env0 [ada_1, bob_2, ada_7, cy_3, ada_1] (idle []))))) =
     {ada_7_row}"
proof -
  let ?d7 = "[(''__typename'', JStr ''ratingsDistribution''), (''r5'', JInt 4)]"
  let ?x = "Exn JSONDecodeError ''Expecting property name enclosed in double quotes''"
  let ?w1 = "\<lparr>table = [ada_1_row], store_calls = 2, http_calls = 2,
      trace = [Print (Fetching_ratings ''Ada''),
               RequestsGet ''https://www.ratemyprofessors.com/professor/1'',
               StoreSelect ''Ada'', StoreInsert ada_1_row,
               Print (Stored_ratings ''Ada''), Print (Fetching_ratings ''Bob''),
               RequestsGet ''https://www.ratemyprofessors.com/professor/2'',
               Print (No_rating_distributions ''Bob'')]\<rparr>"
  have earlier: "professors_loop env0 [ada_1, bob_2] (idle []) = (Inr (), ?w1)"
    by (simp add: process_professor_env0 store_professor_def select_eq_name_def
        insert_row_def execute_def env0_fields fetched_def emit_def idle_def ex_names)
  have data: "fst (fetch_rating_distributions env0 (rmp_link ada_7) ?w1) = Inr (Some ?d7)"
    by (rule ada_7_data) (simp_all add: env0_fields)
  have ok: "store_fault env0 (store_calls ?w1) = None"
    "store_fault env0 (Suc (store_calls ?w1)) = None"
    by (simp_all add: env0_fields)
  have others: "\<forall>q \<in> set [bob_2]. name q \<noteq> name ada_7"
    "\<forall>q \<in> set [cy_3]. name q \<noteq> name ada_7"
    by (simp_all add: bob_2_def cy_3_def ada_7_def)
  have complete: "([] :: professor list) = [] \<or>
      (\<exists>x. fst (professors_loop env0 [bob_2] (snd (process_professor env0 ada_7 ?w1))) = Inl x)"
    by simp
  have "http_get env0 (http_calls w) (rmp_link cy_3) = Inr [Some script_broken] \<and>
      extract_distribution env0 [Some script_broken] = Inl ?x" for w
    by (simp add: env0_fields ex_http_get_def cy_3_def extract_distribution_def
        script_broken_found script_broken_group ex_json_loads_def del: find_script.simps)
  then have "professors_loop env0 [cy_3] w = (Inl ?x, fetched cy_3 w)" for w
    by (intro fetch_failure) blast
  then have cut: "[ada_1] = [] \<or>
      (\<exists>x. fst (professors_loop env0 [cy_3] (snd (process_professor env0 ada_7 ?w1))) = Inl x)"
    by simp
  have names: "name ada_7 = ''Ada''" "build_professor_data ada_7 ?d7 = ada_7_row"
    "[ada_1, bob_2] @ ada_7 # [bob_2] @ [] = [ada_1, bob_2, ada_7, bob_2]"
    "[ada_1, bob_2] @ ada_7 # [cy_3] @ [ada_1] = [ada_1, bob_2, ada_7, cy_3, ada_1]"
    by (simp_all add: ex_names ex_rows)
  from last_occurrence_is_what_the_table_holds [OF earlier data ok others(1) complete]
  have whole: "set (rows_named ''Ada''
         (table (snd (professors_loop env0 [ada_1, bob_2, ada_7, bob_2] (idle []))))) =
     {ada_7_row}"
    by (simp only: names)
  from last_occurrence_is_what_the_table_holds [OF earlier data ok others(2) cut]
  have "set (rows_named ''Ada''
         (table (snd (professors_loop env0 [ada_1, bob_2, ada_7, cy_3, ada_1] (idle []))))) =
     {ada_7_row}"
    by (simp only: names)
  with whole show ?thesis
    by blast
qed

text \<open>
  Without the condition on the table the statement fails. Here the name occurs twice,
  rating data is found both times, and the update issued for the second occurrence
  raises: lines 156-157 catch the exception and print it, the run ends normally, and
  the row of the name is still the record of the first occurrence.
\<close>

theorem last_update_raising_keeps_the_earlier_record_counterexample:
  "fst (fetch_rating_distributions env_update_fails (rmp_link ada_1) (idle [])) =
     Inr (Some [(''__typename'', JStr ''ratingsDistribution''), (''r1'', JInt 3)]) \<and>
   fst (fetch_rating_distributions env_update_fails (rmp_link ada_7)
          (snd (process_professor env_update_fails ada_1 (idle [])))) =
     Inr (Some [(''__typename'', JStr ''ratingsDistribution''), (''r5'', JInt 4)]) \<and>
   build_professor_data ada_7 [(''__typename'', JStr ''ratingsDistribution''), (''r5'', JInt 4)] =
     ada_7_row \<and>
   professors_loop env_update_fails [ada_1, ada_7] (idle []) =
     (Inr (),
      \<lparr>table = [ada_1_row], store_calls = 4, http_calls = 2,
       trace = [Print (Fetching_ratings ''Ada''),
                RequestsGet ''https://www.ratemyprofessors.com/professor/1'',
                StoreSelect ''Ada'', StoreInsert ada_1_row, Print (Stored_ratings ''Ada''),
                Print (Fetching_ratings ''Ada''),
                RequestsGet ''https://www.ratemyprofessors.com/professor/7'',
                StoreSelect ''Ada'', StoreUpdate ada_7_row ''Ada'',
                Print (Error_storing ''Ada'' ''timed out'')]\<rparr>) \<and>
   rows_named ''Ada'' [ada_1_row] = [ada_1_row] \<and>
   ada_1_row \<noteq> ada_7_row"
proof -
  have env: "http_get env_update_fails = ex_http_get" "json_loads env_update_fails = ex_json_loads"
    by (simp_all add: env_update_fails_def env0_def)
  have faults: "store_fault env_update_fails =
      (\<lambda>i. if i = 3 then Some (Exn APIError ''timed out'') else None)"
    by (simp add: env_update_fails_def)
  have pass_1: "process_professor env_update_fails ada_1 w =
      (Inr (), store_professor env_update_fails ada_1 ada_1_row (fetched ada_1 w))"
    and pass_7: "process_professor env_update_fails ada_7 w =
      (Inr (), store_professor env_update_fails ada_7 ada_7_row (fetched ada_7 w))" for w
    by (simp_all add: process_professor_cases ada_1_data [OF env] ada_7_data [OF env] ex_rows)
  have run: "professors_loop env_update_fails [ada_1, ada_7] (idle []) =
     (Inr (),
      \<lparr>table = [ada_1_row], store_calls = 4, http_calls = 2,
       trace = [Print (Fetching_ratings ''Ada''),
                RequestsGet ''https://www.ratemyprofessors.com/professor/1'',
                StoreSelect ''Ada'', StoreInsert ada_1_row, Print (Stored_ratings ''Ada''),
                Print (Fetching_ratings ''Ada''),
                RequestsGet ''https://www.ratemyprofessors.com/professor/7'',
                StoreSelect ''Ada'', StoreUpdate ada_7_row ''Ada'',
                Print (Error_storing ''Ada'' ''timed out'')]\<rparr>)"
    by (simp add: pass_1 pass_7 store_professor_def select_eq_name_def update_eq_name_def
        insert_row_def execute_def faults fetched_def emit_def idle_def ex_names)
  have rows: "rows_named ''Ada'' [ada_1_row] = [ada_1_row]"
    by (simp add: rows_named_def ex_names)
  have differ: "ada_1_row \<noteq> ada_7_row"
    by (simp add: ada_1_row_def ada_7_row_def)
  from ada_1_data [OF env] ada_7_data [OF env] ex_rows(2) run rows differ show ?thesis
    by blast
qed


section \<open>Running the script twice\<close>

lemma inserts_emit:
  "inserts (emit ev w) = (case ev of StoreInsert d \<Rightarrow> insert d (inserts w) | _ \<Rightarrow> inserts w)"
  by (auto simp: inserts_def split: event.splits)

lemma inserts_trace: "trace w' = trace w \<Longrightarrow> inserts w' = inserts w"
  by (simp add: inserts_def)

lemma length_rows_named: "length (rows_named n t) = length (filter (\<lambda>m. m = n) (map name t))"
  by (simp add: rows_named_def filter_map comp_def)

lemma store_professor_inserts:
  "inserts (store_professor env p d w) \<subseteq>
     (if rows_named (name p) (table w) = [] then insert d (inserts w) else inserts w)"
  by (auto simp: store_professor_def select_eq_name_def update_eq_name_def insert_row_def
      execute_def Let_def inserts_def rows_named_def split: option.splits if_splits)

lemma store_professor_names:
  assumes "rows_named (name p) (table w) \<noteq> []"
  shows "map name (table (store_professor env p (build_professor_data p d) w)) = map name (table w)"
proof -
  have "map name (map (\<lambda>r. if name r = name p then build_professor_data p d else r) t) =
      map name t" for t
    by (induction t) auto
  then show ?thesis
    using store_professor_table [of env p "build_professor_data p d" w] assms by auto
qed

lemma store_professor_present:
  assumes "rows_named n (table w) \<noteq> []"
  shows "length (rows_named n (table (store_professor env p (build_professor_data p d) w))) =
           length (rows_named n (table w)) \<and>
         inserts (store_professor env p (build_professor_data p d) w) \<inter> {r. name r = n}
           \<subseteq> inserts w"
proof (cases "name p = n")
  case True
  with assms have here: "rows_named (name p) (table w) \<noteq> []"
    by simp
  from store_professor_names [OF here] store_professor_inserts [of env p _ w] here
  show ?thesis
    by (auto simp: length_rows_named)
next
  case False
  then have "n \<noteq> name p"
    by simp
  from store_professor_other_rows [OF this] store_professor_inserts [of env p "build_professor_data p d" w]
    False
  show ?thesis
    by (auto split: if_splits)
qed

lemma process_professor_present:
  assumes "rows_named n (table w) \<noteq> []"
  shows "length (rows_named n (table (snd (process_professor env p w)))) =
           length (rows_named n (table w)) \<and>
         inserts (snd (process_professor env p w)) \<inter> {r. name r = n} \<subseteq> inserts w"
proof -
  have before: "rows_named n (table (fetched p w)) \<noteq> []" "inserts (fetched p w) = inserts w"
    using assms by (simp_all add: inserts_def)
  show ?thesis
    using store_professor_present [OF before(1), of env p] before(2)
    by (auto simp: process_professor_cases inserts_emit split: sum.splits option.splits)
qed

lemma professors_loop_present:
  assumes "rows_named n (table w) \<noteq> []"
  shows "length (rows_named n (table (snd (professors_loop env ps w)))) =
           length (rows_named n (table w)) \<and>
         inserts (snd (professors_loop env ps w)) \<inter> {r. name r = n} \<subseteq> inserts w"
  using assms
proof (induction ps arbitrary: w)
  case Nil
  show ?case by simp
next
  case (Cons p ps)
  obtain r w1 where step: "process_professor env p w = (r, w1)"
    by (cases "process_professor env p w")
  have one: "length (rows_named n (table w1)) = length (rows_named n (table w))"
    "inserts w1 \<inter> {r. name r = n} \<subseteq> inserts w"
    using process_professor_present [OF Cons.prems, of env p] step by simp_all
  show ?case
  proof (cases r)
    case (Inl e)
    with step one show ?thesis by simp
  next
    case (Inr u)
    have "rows_named n (table w1) \<noteq> []"
      using one(1) Cons.prems by (metis length_0_conv)
    from Cons.IH [OF this] one step Inr show ?thesis
      by auto
  qed
qed


lemma http_calls_store_professor [simp]: "http_calls (store_professor env p d w) = http_calls w"
  by (auto simp: store_professor_def select_eq_name_def update_eq_name_def insert_row_def
      execute_def Let_def split: option.splits)

lemma written_Cons:
  "written env (http_calls w) (p # ps) =
     (case fst (fetch_rating_distributions env (rmp_link p) w) of
        Inl e \<Rightarrow> []
      | Inr r \<Rightarrow> (if truthy r then [name p] else []) @ written env (Suc (http_calls w)) ps)"
  by (simp add: fetch_result split: sum.splits)

lemma extract_distribution_store_fault [simp]:
  "extract_distribution (env\<lparr>store_fault := f\<rparr>) soup = extract_distribution env soup"
  by (simp add: extract_distribution_def split: option.splits)

lemma written_store_fault [simp]: "written (env\<lparr>store_fault := f\<rparr>) k ps = written env k ps"
  by (induction ps arbitrary: k) (simp_all split: sum.splits)

lemma professors_loop_written_present:
  assumes "\<forall>i. store_fault env i = None"
  shows "\<forall>n \<in> set (written env (http_calls w) ps).
           rows_named n (table (snd (professors_loop env ps w))) \<noteq> []"
proof (induction ps arbitrary: w)
  case Nil
  show ?case by simp
next
  case (Cons p ps)
  show ?case
  proof (cases "fst (fetch_rating_distributions env (rmp_link p) w)")
    case (Inl e)
    then show ?thesis
      by (simp add: written_Cons del: written.simps)
  next
    case (Inr r)
    obtain w1 where step: "process_professor env p w = (Inr (), w1)"
      and clock: "http_calls w1 = Suc (http_calls w)"
      and here: "truthy r \<Longrightarrow> rows_named (name p) (table w1) \<noteq> []"
    proof (cases "truthy r")
      case True
      then obtain d where r: "r = Some d" and d: "d \<noteq> []"
        by (auto simp: truthy_def split: option.splits)
      let ?w1 = "store_professor env p (build_professor_data p d) (fetched p w)"
      have "set (rows_named (name p) (table ?w1)) = {build_professor_data p d}"
        using assms by (intro store_professor_written) simp_all
      then have "rows_named (name p) (table ?w1) \<noteq> []"
        by auto
      moreover have "process_professor env p w = (Inr (), ?w1)"
        using Inr r d by (simp add: process_professor_cases)
      ultimately show ?thesis
        using that [of ?w1] by simp
    next
      case False
      let ?w1 = "emit (Print (No_rating_distributions (name p))) (fetched p w)"
      have "process_professor env p w = (Inr (), ?w1)"
        using Inr False by (auto simp: process_professor_cases truthy_def split: option.splits)
      then show ?thesis
        using that [of ?w1] False by simp
    qed
    have rest: "\<forall>n \<in> set (written env (Suc (http_calls w)) ps).
        rows_named n (table (snd (professors_loop env ps w1))) \<noteq> []"
      using Cons.IH [of w1] clock by simp
    have kept: "truthy r \<Longrightarrow> rows_named (name p) (table (snd (professors_loop env ps w1))) \<noteq> []"
      using professors_loop_present [OF here, of env ps] here by (metis length_0_conv)
    show ?thesis
      using Inr step rest kept
      by (auto simp: written_Cons simp del: written.simps)
  qed
qed

lemma professors_loop_written_only_updates:
  assumes "\<forall>n \<in> set (written env (http_calls w) ps). rows_named n (table w) \<noteq> []"
  shows "map name (table (snd (professors_loop env ps w))) = map name (table w) \<and>
         inserts (snd (professors_loop env ps w)) \<subseteq> inserts w"
  using assms
proof (induction ps arbitrary: w)
  case Nil
  show ?case by simp
next
  case (Cons p ps)
  show ?case
  proof (cases "fst (fetch_rating_distributions env (rmp_link p) w)")
    case (Inl e)
    then show ?thesis
      by (simp add: process_professor_cases inserts_def)
  next
    case (Inr r)
    obtain w1 where step: "process_professor env p w = (Inr (), w1)"
      and clock: "http_calls w1 = Suc (http_calls w)"
      and names: "map name (table w1) = map name (table w)"
      and ins: "inserts w1 \<subseteq> inserts w"
    proof (cases "truthy r")
      case True
      then obtain d where r: "r = Some d" and d: "d \<noteq> []"
        by (auto simp: truthy_def split: option.splits)
      let ?w1 = "store_professor env p (build_professor_data p d) (fetched p w)"
      have present: "rows_named (name p) (table (fetched p w)) \<noteq> []"
        using Cons.prems Inr True by (simp add: written_Cons del: written.simps)
      have "process_professor env p w = (Inr (), ?w1)"
        using Inr r d by (simp add: process_professor_cases)
      moreover have "map name (table ?w1) = map name (table w)"
        using store_professor_names [OF present] by simp
      moreover have "inserts ?w1 \<subseteq> inserts w"
        using store_professor_inserts [of env p "build_professor_data p d" "fetched p w"] present
        by (simp add: inserts_def)
      ultimately show ?thesis
        using that [of ?w1] by simp
    next
      case False
      let ?w1 = "emit (Print (No_rating_distributions (name p))) (fetched p w)"
      have "process_professor env p w = (Inr (), ?w1)"
        using Inr False by (auto simp: process_professor_cases truthy_def split: option.splits)
      then show ?thesis
        using that [of ?w1] by (simp add: inserts_def)
    qed
    have "\<forall>n \<in> set (written env (http_calls w1) ps). rows_named n (table w1) \<noteq> []"
    proof
      fix n
      assume "n \<in> set (written env (http_calls w1) ps)"
      then have "n \<in> set (written env (http_calls w) (p # ps))"
        using Inr clock by (simp add: written_Cons del: written.simps)
      then have "rows_named n (table w) \<noteq> []"
        using Cons.prems by blast
      moreover have "length (rows_named n (table w1)) = length (rows_named n (table w))"
        by (simp only: length_rows_named names)
      ultimately show "rows_named n (table w1) \<noteq> []"
        by (metis length_0_conv)
    qed
    from Cons.IH [OF this] step names ins show ?thesis
      by auto
  qed
qed


lemma show_more_loop_same_outcome:
  assumes "show_more_loop env i w = Some y"
    and "show_more env' = show_more env"
    and "show_more_loop env' i w' = Some y'"
  shows "fst y' = fst y"
proof -
  have "\<forall>w' y'. show_more env' = show_more env \<longrightarrow> show_more_loop env' i w' = Some y' \<longrightarrow>
      fst y' = fst y"
  proof (rule show_more_loop.raw_induct
      [where P = "\<lambda>env i w y. \<forall>w' y'. show_more env' = show_more env \<longrightarrow>
         show_more_loop env' i w' = Some y' \<longrightarrow> fst y' = fst y", OF _ assms(1)],
      goal_cases)
    case (1 loop env i w y)
    show ?case
    proof (intro allI impI)
      fix w' y'
      assume same: "show_more env' = show_more env"
        and run: "show_more_loop env' i w' = Some y'"
      show "fst y' = fst y"
      proof (cases "show_more env i")
        case None
        with 1(2) have "loop env (Suc i) (emit (Print Clicked_show_more) w) = Some y"
          by simp
        moreover have "show_more_loop env' (Suc i) (emit (Print Clicked_show_more) w') = Some y'"
          using run None same by (subst (asm) show_more_loop.simps) simp
        ultimately show ?thesis
          using 1(1) same by blast
      next
        case (Some e)
        show ?thesis
        proof (cases "exn_class e = ElementClickInterceptedException")
          case True
          with Some 1(2) have "loop env (Suc i) (emit (Print Element_blocked) w) = Some y"
            by simp
          moreover have "show_more_loop env' (Suc i) (emit (Print Element_blocked) w') = Some y'"
            using run Some True same by (subst (asm) show_more_loop.simps) simp
          ultimately show ?thesis
            using 1(1) same by blast
        next
          case False
          have "show_more env' i = Some e"
            using Some same by simp
          with run False have "y' = (if exn_class e = NoSuchElementException
              then (Inr (), emit (Print No_more_show_more) w') else (Inl e, w'))"
            by (subst (asm) show_more_loop.simps) (simp split: if_splits)
          moreover from 1(2) Some False have "y = (if exn_class e = NoSuchElementException
              then (Inr (), emit (Print No_more_show_more) w) else (Inl e, w))"
            by (simp split: if_splits)
          ultimately show ?thesis
            by simp
        qed
      qed
    qed
  qed
  with assms(2,3) show ?thesis
    by blast
qed

lemma scrape_professor_links_outcome:
  assumes "scrape_professor_links env url w = Some (r, w')"
  shows "(\<exists>e. driver_get_fault env = Some e \<and> r = Inl e) \<or>
         (driver_get_fault env = None \<and>
          (\<exists>v y. show_more_loop env 0 v = Some y \<and>
                 r = (case fst y of Inl e \<Rightarrow> Inl e
                      | Inr u \<Rightarrow> Inr (cards_loop (page_cards env) []))))"
proof (cases "driver_get_fault env")
  case (Some e)
  with assms show ?thesis
    by (auto simp: scrape_professor_links_def)
next
  case None
  define w1 where "w1 = emit (DriverGet url)
     (emit (DriverSetPageLoadTimeout 300) (emit (Print Starting_link_scraping) w))"
  define w2 where "w2 = (case cookie_popup env of
       Some e \<Rightarrow> emit (Print (No_cookie_popup (str e))) w1 | None \<Rightarrow> w1)"
  define w3 where "w3 = (case ad_popup env of
       Some e \<Rightarrow> emit (Print Ad_popup_not_found) w2 | None \<Rightarrow> w2)"
  have run: "(case show_more_loop env 0 w3 of
        None \<Rightarrow> None
      | Some (Inl e, w4) \<Rightarrow> Some (Inl e, w4)
      | Some (Inr u, w4) \<Rightarrow>
          Some (Inr (cards_loop (page_cards env) []),
                emit (Print (Scraped (length (cards_loop (page_cards env) [])))) w4)) =
      Some (r, w')"
    using assms None unfolding scrape_professor_links_def Let_def w1_def w2_def w3_def
    by simp
  then obtain y where loop: "show_more_loop env 0 w3 = Some y"
    by (cases "show_more_loop env 0 w3") auto
  have "r = (case fst y of Inl e \<Rightarrow> Inl e | Inr u \<Rightarrow> Inr (cards_loop (page_cards env) []))"
    using run loop by (cases y) (auto split: sum.splits)
  with None loop show ?thesis
    by blast
qed

lemma scrape_professor_links_same_outcome:
  assumes "scrape_professor_links env url w = Some (r, w1)"
    and "scrape_professor_links (env\<lparr>store_fault := f\<rparr>) url v = Some (r', v1)"
  shows "r' = r"
proof (cases "driver_get_fault env")
  case (Some e)
  with scrape_professor_links_outcome [OF assms(1)] scrape_professor_links_outcome [OF assms(2)]
  show ?thesis by simp
next
  case None
  with scrape_professor_links_outcome [OF assms(1)]
  obtain a y where y: "show_more_loop env 0 a = Some y"
    and r: "r = (case fst y of Inl e \<Rightarrow> Inl e | Inr u \<Rightarrow> Inr (cards_loop (page_cards env) []))"
    by auto
  have "driver_get_fault (env\<lparr>store_fault := f\<rparr>) = None"
    using None by simp
  with scrape_professor_links_outcome [OF assms(2)]
  obtain b y' where y': "show_more_loop (env\<lparr>store_fault := f\<rparr>) 0 b = Some y'"
    and "r' = (case fst y' of Inl e \<Rightarrow> Inl e
               | Inr u \<Rightarrow> Inr (cards_loop (page_cards (env\<lparr>store_fault := f\<rparr>)) []))"
    by (elim disjE exE conjE) simp_all
  then have r': "r' = (case fst y' of Inl e \<Rightarrow> Inl e
               | Inr u \<Rightarrow> Inr (cards_loop (page_cards env) []))"
    by (simp split: sum.splits)
  have "fst y' = fst y"
    using show_more_loop_same_outcome [OF y _ y'] by simp
  with r r' show ?thesis
    by simp
qed


lemma script_run:
  assumes "script env t = Some (r, w)"
  shows "(table w = t \<and> inserts w = {} \<and>
          (store_fault env 0 \<noteq> None \<or>
           (\<exists>wp e ws. scrape_professor_links env BASE_URL wp = Some (Inl e, ws)))) \<or>
         (store_fault env 0 = None \<and>
          (\<exists>wp ws ps. scrape_professor_links env BASE_URL wp = Some (Inr ps, ws) \<and>
             table ws = t \<and> http_calls ws = 0 \<and> inserts ws = {} \<and>
             table w = table (snd (professors_loop env ps ws)) \<and>
             inserts w = inserts (snd (professors_loop env ps ws))))"
proof -
  obtain m where m: "main env (start t) = Some (r, m)"
    and w: "table w = table m" "inserts w = inserts m"
    using assms
    by (auto simp: script_def inserts_emit split: option.splits sum.splits prod.splits)
  obtain ok wp where probe: "test_supabase_connection env (start t) = (ok, wp)"
    by (cases "test_supabase_connection env (start t)")
  from test_supabase_connection_world [OF probe]
  have wp: "table wp = t" "http_calls wp = 0" "ok \<longleftrightarrow> store_fault env 0 = None" "inserts wp = {}"
    by (auto simp: start_def inserts_def)
  show ?thesis
  proof (cases ok)
    case False
    with m probe have "m = emit (Print Exiting_connection_error) wp"
      by (simp add: main_def)
    with w wp False show ?thesis
      by (simp add: inserts_emit)
  next
    case True
    then obtain r2 ws where scrape: "scrape_professor_links env BASE_URL wp = Some (r2, ws)"
      using m probe by (auto simp: main_def split: option.splits)
    from scrape_professor_links_world [OF scrape] wp
    have ws: "table ws = t" "http_calls ws = 0" "inserts ws = {}"
      by (auto simp: inserts_def)
    show ?thesis
    proof (cases r2)
      case (Inl e)
      with m probe True scrape have "m = ws"
        by (simp add: main_def)
      with w ws scrape Inl show ?thesis
        by blast
    next
      case (Inr ps)
      have "table m = table (snd (professors_loop env ps ws)) \<and>
          inserts m = inserts (snd (professors_loop env ps ws))"
        using m probe True scrape Inr
        by (auto simp: main_def inserts_emit split: prod.splits sum.splits)
      with w ws wp True scrape Inr show ?thesis
        by (intro disjI2 conjI exI [of _ wp] exI [of _ ws] exI [of _ ps]) simp_all
    qed
  qed
qed

text \<open>
  Claim C5. Run the script, then run it again on the table the first run left, with the
  same browser behaviour, the same pages and the same \<^verbatim>\<open>json.loads\<close>; the table may
  answer the second run differently. For every name that has a row after the first
  run, the second run leaves the number of rows of that name as it is and issues no
  insert for it. When every call to the table of the first run was answered, this
  covers every name the runs process: after the second run every name has as many rows
  as after the first, and the second run issues no insert at all.
\<close>

theorem second_run_only_updates:
  assumes "script env t = Some (r1, w1)"
    and "script (env\<lparr>store_fault := f\<rparr>) (table w1) = Some (r2, w2)"
  shows "(\<forall>n. rows_named n (table w1) \<noteq> [] \<longrightarrow>
            length (rows_named n (table w2)) = length (rows_named n (table w1)) \<and>
            (\<forall>d. StoreInsert d \<in> set (trace w2) \<longrightarrow> name d \<noteq> n)) \<and>
         ((\<forall>i. store_fault env i = None) \<longrightarrow>
            (\<forall>n. length (rows_named n (table w2)) = length (rows_named n (table w1))) \<and>
            (\<forall>d. StoreInsert d \<notin> set (trace w2)))"
proof -
  let ?env2 = "env\<lparr>store_fault := f\<rparr>"
  from script_run [OF assms(2)]
  consider (idle) "table w2 = table w1" "inserts w2 = {}"
    | (loop) wp ws ps where "scrape_professor_links ?env2 BASE_URL wp = Some (Inr ps, ws)"
        "table ws = table w1" "http_calls ws = 0" "inserts ws = {}"
        "table w2 = table (snd (professors_loop ?env2 ps ws))"
        "inserts w2 = inserts (snd (professors_loop ?env2 ps ws))"
    by blast
  then show ?thesis
  proof cases
    case idle
    then show ?thesis
      by (auto simp: inserts_def)
  next
    case loop
    have present: "length (rows_named n (table w2)) = length (rows_named n (table w1)) \<and>
        (\<forall>d. StoreInsert d \<in> set (trace w2) \<longrightarrow> name d \<noteq> n)"
      if "rows_named n (table w1) \<noteq> []" for n
    proof -
      have "rows_named n (table ws) \<noteq> []"
        using that loop(2) by simp
      from professors_loop_present [OF this, of ?env2 ps] loop show ?thesis
        by (auto simp: inserts_def)
    qed
    have all: "(\<forall>n. length (rows_named n (table w2)) = length (rows_named n (table w1))) \<and>
        (\<forall>d. StoreInsert d \<notin> set (trace w2))"
      if ok: "\<forall>i. store_fault env i = None"
    proof -
      from script_run [OF assms(1)] ok
      consider (raised) wp1 e ws1 where "scrape_professor_links env BASE_URL wp1 = Some (Inl e, ws1)"
        | (looped) wp1 ws1 ps1 where "scrape_professor_links env BASE_URL wp1 = Some (Inr ps1, ws1)"
            "table ws1 = t" "http_calls ws1 = 0"
            "table w1 = table (snd (professors_loop env ps1 ws1))"
        by auto
      then show ?thesis
      proof cases
        case raised
        from scrape_professor_links_same_outcome [OF raised loop(1)] show ?thesis
          by simp
      next
        case looped
        have ps: "ps1 = ps"
          using scrape_professor_links_same_outcome [OF looped(1) loop(1)] by simp
        have "\<forall>n \<in> set (written env (http_calls ws1) ps).
            rows_named n (table (snd (professors_loop env ps ws1))) \<noteq> []"
          using ok by (rule professors_loop_written_present)
        then have "\<forall>n \<in> set (written ?env2 (http_calls ws) ps). rows_named n (table ws) \<noteq> []"
          using looped loop ps by simp
        from professors_loop_written_only_updates [OF this] loop
        have names: "map name (table w2) = map name (table w1)" and "inserts w2 = {}"
          by auto
        then show ?thesis
          by (auto simp: length_rows_named inserts_def)
      qed
    qed
    from present all show ?thesis
      by blast
  qed
qed

lemma script_env0_first: "script env0 [] = Some (Inr (), run_1)"
  by (simp add: script_def main_def test_supabase_connection_def select_limit_1_def execute_def
      start_def scrape_professor_links_def show_more_loop.simps env0_fields ex_professors
      process_professor_env0 store_professor_def select_eq_name_def update_eq_name_def
      insert_row_def set_columns_all fetched_def emit_def ex_names run_1_def)

lemma script_env0_second: "script (env0\<lparr>store_fault := (\<lambda>i. None)\<rparr>) (table run_1) = Some (Inr (), run_2)"
proof -
  have same: "env0\<lparr>store_fault := (\<lambda>i. None)\<rparr> = env0"
    by (simp add: env0_def)
  show ?thesis
    unfolding same
    by (simp add: script_def main_def test_supabase_connection_def select_limit_1_def execute_def
      start_def scrape_professor_links_def show_more_loop.simps env0_fields ex_professors
      process_professor_env0 store_professor_def select_eq_name_def update_eq_name_def
      insert_row_def set_columns_all fetched_def emit_def ex_names run_1_def run_2_def)
qed

theorem second_run_only_updates_witness:
  "script env0 [] = Some (Inr (), run_1) \<and>
   script (env0\<lparr>store_fault := (\<lambda>i. None)\<rparr>) (table run_1) = Some (Inr (), run_2) \<and>
   length (rows_named ''Ada'' (table run_2)) = length (rows_named ''Ada'' (table run_1)) \<and>
   length (rows_named ''Bob'' (table run_2)) = length (rows_named ''Bob'' (table run_1)) \<and>
   StoreInsert ada_1_row \<notin> set (trace run_2)"
proof -
  have present: "rows_named ''Ada'' (table run_1) \<noteq> []"
    by (simp add: rows_named_def run_1_def ex_names)
  have ok: "\<forall>i. store_fault env0 i = None"
    by (simp add: env0_fields)
  from second_run_only_updates [OF script_env0_first script_env0_second] present ok
  have "length (rows_named ''Ada'' (table run_2)) = length (rows_named ''Ada'' (table run_1))"
    and "length (rows_named ''Bob'' (table run_2)) = length (rows_named ''Bob'' (table run_1))"
    and "StoreInsert ada_1_row \<notin> set (trace run_2)"
    by blast+
  with script_env0_first script_env0_second show ?thesis
    by blast
qed


end
